theory Spec2Isabelle
  imports Complex_Main "HOL-Library.Word"
begin

section \<open>Conventions\<close>

text \<open>
  A JavaScript \<open>number\<close> is modelled as a \<^typ>\<open>real\<close>: the arithmetic of the
  analysis code is read over the reals, without rounding, NaN or infinities.
  An element of a \<open>Uint8Array\<close> is an \<^typ>\<open>8 word\<close>, read with \<^const>\<open>unat\<close>.
  Mutable fields of the long-lived objects become records that every operation
  takes and returns; callbacks become a list of the events fired, in firing order.
\<close>

section \<open>Structural event synchronizer (hooks/useBeatSync.ts)\<close>

record TimeInterval =
  start :: real
  duration :: real
  confidence :: real

text \<open>Of \<open>AudioAnalysis\<close> the hook reads only the three tables below.\<close>

record AudioAnalysis =
  beats :: "TimeInterval list"
  bars :: "TimeInterval list"
  sections :: "TimeInterval list"

datatype SyncEvent = OnBeat nat real | OnBar nat | OnSection nat

text \<open>The four refs of the hook; \<open>None\<close> is the \<open>null\<close> previous position.\<close>

record SyncCursor =
  prevPosition :: "real option"
  lastBeat :: int
  lastBar :: int
  lastSection :: int

text \<open>The first effect of the hook: it runs whenever the analysis object changes.\<close>

definition resetCursor :: SyncCursor where
  "resetCursor = \<lparr>prevPosition = None, lastBeat = - 1, lastBar = - 1, lastSection = - 1\<rparr>"

text \<open>The loop of \<open>eventsInWindow\<close>, from index \<open>i\<close> on.\<close>

fun eventsFrom :: "nat \<Rightarrow> TimeInterval list \<Rightarrow> real \<Rightarrow> real \<Rightarrow> (TimeInterval \<times> nat) list" where
  "eventsFrom i [] prevSec curSec = []"
| "eventsFrom i (x # xs) prevSec curSec =
     (if start x > prevSec \<and> start x \<le> curSec
      then (x, i) # eventsFrom (Suc i) xs prevSec curSec
      else eventsFrom (Suc i) xs prevSec curSec)"

definition eventsInWindow :: "TimeInterval list \<Rightarrow> real \<Rightarrow> real \<Rightarrow> (TimeInterval \<times> nat) list" where
  "eventsInWindow arr prevSec curSec = eventsFrom 0 arr prevSec curSec"

text \<open>
  One of the three \<open>for ... of\<close> loops of the second effect: the last-fired index is
  compared and overwritten entry by entry. The result is the final last-fired index
  and the entries whose callback ran.
\<close>

fun fireLoop :: "int \<Rightarrow> (TimeInterval \<times> nat) list \<Rightarrow> int \<times> (TimeInterval \<times> nat) list" where
  "fireLoop lastRef [] = (lastRef, [])"
| "fireLoop lastRef ((item, index) # rest) =
     (if int index \<noteq> lastRef
      then (case fireLoop (int index) rest of (l, fired) \<Rightarrow> (l, (item, index) # fired))
      else fireLoop lastRef rest)"

text \<open>
  The second effect of the hook, for one value of \<open>(analysis, position, isPlaying)\<close>;
  \<open>position\<close> is in milliseconds.
\<close>

definition useBeatSync ::
  "AudioAnalysis option \<Rightarrow> real \<Rightarrow> bool \<Rightarrow> SyncCursor \<Rightarrow> SyncCursor \<times> SyncEvent list" where
  "useBeatSync analysis position isPlaying c =
     (case analysis of
        None \<Rightarrow> (c, [])
      | Some a \<Rightarrow>
          if \<not> isPlaying then (c, [])
          else
            let curSec = position / 1000;
                prevSec = (case prevPosition c of None \<Rightarrow> curSec - 0.2 | Some p \<Rightarrow> p);
                c1 = c\<lparr>prevPosition := Some curSec\<rparr>
            in if curSec < prevSec - 0.5 then (c1, [])
               else
                 (case fireLoop (lastBeat c1) (eventsInWindow (beats a) prevSec curSec) of
                    (lb, fb) \<Rightarrow>
                 (case fireLoop (lastBar c1) (eventsInWindow (bars a) prevSec curSec) of
                    (lr, fr) \<Rightarrow>
                 (case fireLoop (lastSection c1) (eventsInWindow (sections a) prevSec curSec) of
                    (ls, fs) \<Rightarrow>
                   (c1\<lparr>lastBeat := lb, lastBar := lr, lastSection := ls\<rparr>,
                    map (\<lambda>(item, index). OnBeat index (confidence item)) fb
                      @ map (\<lambda>(item, index). OnBar index) fr
                      @ map (\<lambda>(item, index). OnSection index) fs)))))"

text \<open>A sequence of calls on one analysis object, with the events of each call.\<close>

fun runSync ::
  "AudioAnalysis option \<Rightarrow> (real \<times> bool) list \<Rightarrow> SyncCursor \<Rightarrow> SyncCursor \<times> SyncEvent list list" where
  "runSync analysis [] c = (c, [])"
| "runSync analysis ((position, isPlaying) # calls) c =
     (case useBeatSync analysis position isPlaying c of
        (c', evs) \<Rightarrow> (case runSync analysis calls c' of (c'', evss) \<Rightarrow> (c'', evs # evss)))"

text \<open>Observers: the beat, bar and section indices among fired events.\<close>

fun beatIndex :: "SyncEvent \<Rightarrow> nat option" where
  "beatIndex (OnBeat i cf) = Some i"
| "beatIndex _ = None"

definition beatsFired :: "SyncEvent list \<Rightarrow> nat list" where
  "beatsFired evs = List.map_filter beatIndex evs"

fun barIndex :: "SyncEvent \<Rightarrow> nat option" where
  "barIndex (OnBar i) = Some i"
| "barIndex _ = None"

fun sectionIndex :: "SyncEvent \<Rightarrow> nat option" where
  "sectionIndex (OnSection i) = Some i"
| "sectionIndex _ = None"

definition barsFired :: "SyncEvent list \<Rightarrow> nat list" where
  "barsFired evs = List.map_filter barIndex evs"

definition sectionsFired :: "SyncEvent list \<Rightarrow> nat list" where
  "sectionsFired evs = List.map_filter sectionIndex evs"

text \<open>
  What one loop fires, in closed form: the window entries in table order, without the
  first one when its index is the one fired last before the call. Every later entry
  is compared with the index of the entry just before it, which always differs.
\<close>

definition exceptRepeat :: "int \<Rightarrow> nat list \<Rightarrow> nat list" where
  "exceptRepeat lastRef win =
     (case win of [] \<Rightarrow> [] | i # rest \<Rightarrow> if int i = lastRef then rest else i # rest)"

text \<open>The window of a call: what \<open>prevSec\<close> and \<open>curSec\<close> are in the effect.\<close>

definition curSecOf :: "real \<Rightarrow> real" where
  "curSecOf position = position / 1000"

definition prevSecOf :: "SyncCursor \<Rightarrow> real \<Rightarrow> real" where
  "prevSecOf c position =
     (case prevPosition c of None \<Rightarrow> curSecOf position - 0.2 | Some p \<Rightarrow> p)"

text \<open>The indices of the table entries that start in the half-open window \<open>(p, q]\<close>.\<close>

definition inWindow :: "TimeInterval list \<Rightarrow> real \<Rightarrow> real \<Rightarrow> nat list" where
  "inWindow arr p q = filter (\<lambda>i. p < start (arr ! i) \<and> start (arr ! i) \<le> q) [0..<length arr]"

text \<open>The calls of the dispatch scenario (positions in milliseconds) and a table for it.\<close>

definition forwardCalls :: "(real \<times> bool) list" where
  "forwardCalls = [(0, True), (600, True), (1200, True), (1800, True)]"

definition demoAnalysis :: AudioAnalysis where
  "demoAnalysis =
     \<lparr>beats = [\<lparr>start = 0.5, duration = 0.5, confidence = 0.9\<rparr>,
                \<lparr>start = 1.0, duration = 0.5, confidence = 0.8\<rparr>,
                \<lparr>start = 1.5, duration = 0.5, confidence = 0.7\<rparr>],
      bars = [\<lparr>start = 0.5, duration = 2, confidence = 1\<rparr>],
      sections = []\<rparr>"

section \<open>The analysis frame (three/liveAnalyzer.ts)\<close>

text \<open>
  \<open>LiveAnalysisFrame\<close>, with the nested \<open>onsets\<close> and \<open>beat\<close> objects flattened into
  prefixed fields.
\<close>

record LiveAnalysisFrame =
  subBass :: real
  bass :: real
  mids :: real
  highs :: real
  brilliance :: real
  rawMids :: real
  centroid :: real
  flux :: real
  rolloff :: real
  zcr :: real
  onsets_subBass :: bool
  onsets_bass :: bool
  onsets_mids :: bool
  onsets_highs :: bool
  onsetDensity :: real
  vocalDetected :: bool
  beat_fired :: bool
  beat_confidence :: real
  bpm :: real

section \<open>Audio profile classifier (three/audioProfile.ts)\<close>

datatype ProfileType = Heavy | Ambient | Rhythmic | Acoustic | Chaotic

text \<open>
  \<open>ProfileWeights\<close>, also the shape of \<open>rawScores\<close> (a \<open>Record<ProfileType, number>\<close>);
  \<open>getW\<close> and \<open>setW\<close> are the indexed read \<open>w[k]\<close> and write \<open>w[k] = v\<close>.
\<close>

record ProfileWeights =
  heavy :: real
  ambient :: real
  rhythmic :: real
  acoustic :: real
  chaotic :: real

fun getW :: "ProfileWeights \<Rightarrow> ProfileType \<Rightarrow> real" where
  "getW w Heavy = heavy w"
| "getW w Ambient = ambient w"
| "getW w Rhythmic = rhythmic w"
| "getW w Acoustic = acoustic w"
| "getW w Chaotic = chaotic w"

fun setW :: "ProfileType \<Rightarrow> real \<Rightarrow> ProfileWeights \<Rightarrow> ProfileWeights" where
  "setW Heavy v w = w\<lparr>heavy := v\<rparr>"
| "setW Ambient v w = w\<lparr>ambient := v\<rparr>"
| "setW Rhythmic v w = w\<lparr>rhythmic := v\<rparr>"
| "setW Acoustic v w = w\<lparr>acoustic := v\<rparr>"
| "setW Chaotic v w = w\<lparr>chaotic := v\<rparr>"

record ProfileDef =
  hue1 :: real
  hue2 :: real
  hue3 :: real
  roughness :: real
  displacementScale :: real
  bloomStrength :: real
  chromaAmount :: real
  grainAmount :: real
  particleVelocity :: real
  particleOpacity :: real
  cameraShake :: real

text \<open>\<open>VisualParams\<close> has the eleven numbers of a \<open>ProfileDef\<close> and the dominant profile.\<close>

record VisualParams = ProfileDef +
  dominant :: ProfileType

fun PROFILE_DEFS :: "ProfileType \<Rightarrow> ProfileDef" where
  "PROFILE_DEFS Heavy =
     \<lparr>hue1 = 0.02, hue2 = 0.07, hue3 = 0.97, roughness = 0.85, displacementScale = 1.35,
      bloomStrength = 2.2, chromaAmount = 0.007, grainAmount = 0.13,
      particleVelocity = 0.80, particleOpacity = 0.85, cameraShake = 0.012\<rparr>"
| "PROFILE_DEFS Ambient =
     \<lparr>hue1 = 0.62, hue2 = 0.72, hue3 = 0.55, roughness = 0.08, displacementScale = 0.65,
      bloomStrength = 1.8, chromaAmount = 0.003, grainAmount = 0.04,
      particleVelocity = 0.15, particleOpacity = 0.40, cameraShake = 0.0\<rparr>"
| "PROFILE_DEFS Rhythmic =
     \<lparr>hue1 = 0.47, hue2 = 0.88, hue3 = 0.50, roughness = 0.40, displacementScale = 1.05,
      bloomStrength = 2.5, chromaAmount = 0.008, grainAmount = 0.06,
      particleVelocity = 0.65, particleOpacity = 0.75, cameraShake = 0.005\<rparr>"
| "PROFILE_DEFS Acoustic =
     \<lparr>hue1 = 0.10, hue2 = 0.28, hue3 = 0.14, roughness = 0.18, displacementScale = 0.80,
      bloomStrength = 1.4, chromaAmount = 0.004, grainAmount = 0.10,
      particleVelocity = 0.25, particleOpacity = 0.55, cameraShake = 0.0\<rparr>"
| "PROFILE_DEFS Chaotic =
     \<lparr>hue1 = 0.95, hue2 = 0.50, hue3 = 0.25, roughness = 1.00, displacementScale = 1.55,
      bloomStrength = 3.0, chromaAmount = 0.014, grainAmount = 0.16,
      particleVelocity = 1.20, particleOpacity = 0.90, cameraShake = 0.020\<rparr>"

text \<open>\<open>Object.keys(PROFILE_DEFS)\<close>: the keys in the order the literal lists them.\<close>

definition PROFILE_KEYS :: "ProfileType list" where
  "PROFILE_KEYS = [Heavy, Ambient, Rhythmic, Acoustic, Chaotic]"

record RollingStats =
  rs_centroid :: real
  rs_flux :: real
  rs_onsetDensity :: real
  rs_bassRatio :: real
  rs_zcr :: real

record AudioProfileClassifier =
  rolling :: RollingStats
  weights :: ProfileWeights
  params :: VisualParams
  txCentroid :: real
  txOnsetDensity :: real

text \<open>\<open>paramsFromWeights\<close>: \<open>blend\<close> is the inner reduce, one call per numeric key.\<close>

definition blend :: "(ProfileDef \<Rightarrow> real) \<Rightarrow> ProfileWeights \<Rightarrow> real" where
  "blend key w = foldl (\<lambda>s p. s + key (PROFILE_DEFS p) * getW w p) 0 PROFILE_KEYS"

text \<open>
  \<open>PROFILE_KEYS.reduce((a, b) => w[a] > w[b] ? a : b)\<close>: without an initial value the
  reduce starts from the first key; on equal weights the later key is kept.
\<close>

definition dominantOf :: "ProfileWeights \<Rightarrow> ProfileType" where
  "dominantOf w = foldl (\<lambda>a b. if getW w a > getW w b then a else b) (hd PROFILE_KEYS) (tl PROFILE_KEYS)"

definition paramsFromWeights :: "ProfileWeights \<Rightarrow> VisualParams" where
  "paramsFromWeights w =
     \<lparr>hue1 = blend hue1 w, hue2 = blend hue2 w, hue3 = blend hue3 w,
      roughness = blend roughness w, displacementScale = blend displacementScale w,
      bloomStrength = blend bloomStrength w, chromaAmount = blend chromaAmount w,
      grainAmount = blend grainAmount w, particleVelocity = blend particleVelocity w,
      particleOpacity = blend particleOpacity w, cameraShake = blend cameraShake w,
      dominant = dominantOf w\<rparr>"

text \<open>The field initialisers of the class.\<close>

definition initialWeights :: ProfileWeights where
  "initialWeights = \<lparr>heavy = 0, ambient = 1, rhythmic = 0, acoustic = 0, chaotic = 0\<rparr>"

definition initialClassifier :: AudioProfileClassifier where
  "initialClassifier =
     \<lparr>rolling = \<lparr>rs_centroid = 0.35, rs_flux = 0.05, rs_onsetDensity = 0.05,
                  rs_bassRatio = 0.8, rs_zcr = 0.15\<rparr>,
      weights = initialWeights,
      params = paramsFromWeights initialWeights,
      txCentroid = 0.35, txOnsetDensity = 0.05\<rparr>"

text \<open>The blocks of \<open>update\<close>, in source order.\<close>

definition rollStats :: "LiveAnalysisFrame \<Rightarrow> real \<Rightarrow> RollingStats \<Rightarrow> RollingStats" where
  "rollStats frame dt r =
     (let aFast = min 0.15 (dt / 1.5);
          aSlow = min 0.04 (dt / 5.0);
          bassRatio = (subBass frame + bass frame) / max 0.001 (mids frame + highs frame)
      in \<lparr>rs_centroid = rs_centroid r + (centroid frame - rs_centroid r) * aSlow,
          rs_flux = rs_flux r + (flux frame - rs_flux r) * aFast,
          rs_onsetDensity = rs_onsetDensity r + (onsetDensity frame - rs_onsetDensity r) * aSlow,
          rs_bassRatio = rs_bassRatio r + (bassRatio - rs_bassRatio r) * aSlow,
          rs_zcr = rs_zcr r + (zcr frame - rs_zcr r) * aSlow\<rparr>)"

definition sat :: "real \<Rightarrow> real" where
  "sat x = max 0 (min 1 x)"

definition rawScores :: "RollingStats \<Rightarrow> ProfileWeights" where
  "rawScores r =
     (let centroid = rs_centroid r; flux = rs_flux r; onsetDensity = rs_onsetDensity r;
          br = rs_bassRatio r; zcr = rs_zcr r
      in \<lparr>heavy = sat (br * onsetDensity * flux * 6),
          ambient = sat ((1 - onsetDensity) * (1 - flux) * 0.95),
          rhythmic = sat (centroid * onsetDensity * max 0 (1 - br * 0.5) * 4),
          acoustic = sat ((1 - zcr) * (0.6 - \<bar>centroid - 0.28\<bar>) * 4 * (1 - onsetDensity * 0.6)),
          chaotic = sat (zcr * flux * 6)\<rparr>)"

text \<open>
  Normalisation. \<open>sum || 1\<close> replaces a zero sum by 1. The target object starts empty
  and receives all five keys; the model starts it from zeros.
\<close>

definition targetWeightsOf :: "ProfileWeights \<Rightarrow> ProfileWeights" where
  "targetWeightsOf raw =
     (let s = foldl (\<lambda>s k. s + getW raw k) 0 PROFILE_KEYS;
          total = (if s = 0 then 1 else s)
      in foldl (\<lambda>t k. setW k (getW raw k / total) t)
           \<lparr>heavy = 0, ambient = 0, rhythmic = 0, acoustic = 0, chaotic = 0\<rparr> PROFILE_KEYS)"

definition blendWeights :: "ProfileWeights \<Rightarrow> ProfileWeights \<Rightarrow> real \<Rightarrow> ProfileWeights" where
  "blendWeights w target aBlend =
     foldl (\<lambda>w k. setW k (getW w k + (getW target k - getW w k) * aBlend) w) w PROFILE_KEYS"

definition smoothParams :: "VisualParams \<Rightarrow> VisualParams \<Rightarrow> real \<Rightarrow> VisualParams" where
  "smoothParams p target aVis =
     p\<lparr>hue1 := hue1 p + (hue1 target - hue1 p) * aVis,
       hue2 := hue2 p + (hue2 target - hue2 p) * aVis,
       hue3 := hue3 p + (hue3 target - hue3 p) * aVis,
       roughness := roughness p + (roughness target - roughness p) * aVis,
       displacementScale := displacementScale p + (displacementScale target - displacementScale p) * aVis,
       bloomStrength := bloomStrength p + (bloomStrength target - bloomStrength p) * aVis,
       chromaAmount := chromaAmount p + (chromaAmount target - chromaAmount p) * aVis,
       grainAmount := grainAmount p + (grainAmount target - grainAmount p) * aVis,
       particleVelocity := particleVelocity p + (particleVelocity target - particleVelocity p) * aVis,
       particleOpacity := particleOpacity p + (particleOpacity target - particleOpacity p) * aVis,
       cameraShake := cameraShake p + (cameraShake target - cameraShake p) * aVis,
       dominant := dominant target\<rparr>"

text \<open>\<open>update(frame, dt)\<close>: the returned parameters and the classifier after the call.\<close>

definition update ::
  "LiveAnalysisFrame \<Rightarrow> real \<Rightarrow> AudioProfileClassifier \<Rightarrow> VisualParams \<times> AudioProfileClassifier" where
  "update frame dt c =
     (let hasAudio = (bass frame > 0 \<or> subBass frame > 0)
      in if \<not> hasAudio then (params c, c)
         else
           let r = rollStats frame dt (rolling c);
               targetWeights = targetWeightsOf (rawScores r);
               aBlend = min 0.02 (dt / 2.5);
               w = blendWeights (weights c) targetWeights aBlend;
               target = paramsFromWeights w;
               aVis = min 0.25 (dt / 0.3);
               p = smoothParams (params c) target aVis
           in (p, c\<lparr>rolling := r, weights := w, params := p\<rparr>))"



definition scenarioRolling :: RollingStats where
  "scenarioRolling =
     \<lparr>rs_centroid = 0.2, rs_flux = 0.5, rs_onsetDensity = 0.6, rs_bassRatio = 3.0, rs_zcr = 0.1\<rparr>"




definition silentBassFrame :: LiveAnalysisFrame where
  "silentBassFrame =
     \<lparr>subBass = 0, bass = 0, mids = 0.4, highs = 0.3, brilliance = 0.2, rawMids = 0.45,
      centroid = 0.6, flux = 0.3, rolloff = 0.7, zcr = 0.5,
      onsets_subBass = False, onsets_bass = False, onsets_mids = True, onsets_highs = False,
      onsetDensity = 0.2, vocalDetected = True, beat_fired = False, beat_confidence = 0, bpm = 120\<rparr>"


section \<open>Live analyzer (three/liveAnalyzer.ts)\<close>

datatype AudioSourceMode = Idle | Preview | Live | Mic

text \<open>The four bands with onset detection: the keys of \<open>onsetRolling\<close> and \<open>lastOnset\<close>.\<close>

datatype Band = SubBass | Bass | Mids | Highs

text \<open>
  The analysis fields of the \<open>LiveAnalyzer\<close> class. The Web Audio objects are not part of
  the state: what \<open>tick\<close> reads from them (whether an analyser is attached and the context
  runs, the bytes \<open>getByteFrequencyData\<close> delivers, the sample rate) is an argument of
  \<open>tick\<close>. The private field \<open>_bpm\<close> is \<open>bpmField\<close> here.
\<close>

record LiveAnalyzer =
  mode :: AudioSourceMode
  prevDataArray :: "8 word list option"
  smSubBass :: real
  smBass :: real
  smMids :: real
  smHighs :: real
  smBrilliance :: real
  smCentroid :: real
  smFlux :: real
  smRolloff :: real
  smZCR :: real
  onsetRolling :: "Band \<Rightarrow> real"
  lastOnset :: "Band \<Rightarrow> real"
  onsetDensitySmooth :: real
  vocalMidsRolling :: real
  vocalBassHighRolling :: real
  rollingBass :: real
  lastBeatTime :: real
  beatIntervals :: "real list"
  bpmField :: real

text \<open>The field initialisers; \<open>disposeSource\<close> restores all of them except \<open>_bpm\<close>.\<close>

definition initialAnalyzer :: "AudioSourceMode \<Rightarrow> LiveAnalyzer" where
  "initialAnalyzer m =
     \<lparr>mode = m, prevDataArray = None,
      smSubBass = 0, smBass = 0, smMids = 0, smHighs = 0, smBrilliance = 0,
      smCentroid = 0.5, smFlux = 0, smRolloff = 0.3, smZCR = 0,
      onsetRolling = (\<lambda>b. 0), lastOnset = (\<lambda>b. - 1),
      onsetDensitySmooth = 0, vocalMidsRolling = 0, vocalBassHighRolling = 0,
      rollingBass = 20, lastBeatTime = - 1, beatIntervals = [], bpmField = 120\<rparr>"

text \<open>The local accumulators of the first loop of \<open>tick\<close>.\<close>

record BandSums =
  subBassSum :: real
  subBassCount :: nat
  bassSum :: real
  bassCount :: nat
  midsSum :: real
  midsCount :: nat
  highsSum :: real
  highsCount :: nat
  brillSum :: real
  brillCount :: nat
  weightedBinSum :: real
  totalMag :: real
  fluxSum :: real

definition zeroSums :: BandSums where
  "zeroSums =
     \<lparr>subBassSum = 0, subBassCount = 0, bassSum = 0, bassCount = 0, midsSum = 0, midsCount = 0,
      highsSum = 0, highsCount = 0, brillSum = 0, brillCount = 0,
      weightedBinSum = 0, totalMag = 0, fluxSum = 0\<rparr>"

text \<open>The numeric value, 0 to 255, of an element of a \<open>Uint8Array\<close>.\<close>

definition byteVal :: "8 word \<Rightarrow> real" where
  "byteVal byte = real (unat byte)"

text \<open>
  The previous frame's magnitude at bin \<open>i\<close>, 0 when there is no previous frame. The
  previous frame is a copy of an earlier \<open>dataArray\<close> of the same analyser, so it has the
  same length and the index is in range; the model reads 0 outside it.
\<close>

definition prevAt :: "8 word list option \<Rightarrow> nat \<Rightarrow> real" where
  "prevAt prev i =
     (case prev of None \<Rightarrow> 0 | Some p \<Rightarrow> if i < length p then byteVal (p ! i) else 0)"

text \<open>The first loop, from bin \<open>i\<close> on, over the bytes that remain.\<close>

fun accumulate :: "real \<Rightarrow> 8 word list option \<Rightarrow> nat \<Rightarrow> 8 word list \<Rightarrow> BandSums \<Rightarrow> BandSums" where
  "accumulate hzPerBin prev i [] acc = acc"
| "accumulate hzPerBin prev i (byte # rest) acc =
     (let v = byteVal byte;
          hz = real i * hzPerBin;
          acc1 =
            (if hz < 60 then acc\<lparr>subBassSum := subBassSum acc + v, subBassCount := Suc (subBassCount acc)\<rparr>
             else if hz < 250 then acc\<lparr>bassSum := bassSum acc + v, bassCount := Suc (bassCount acc)\<rparr>
             else if hz < 2000 then acc\<lparr>midsSum := midsSum acc + v, midsCount := Suc (midsCount acc)\<rparr>
             else if hz < 6000 then acc\<lparr>highsSum := highsSum acc + v, highsCount := Suc (highsCount acc)\<rparr>
             else acc\<lparr>brillSum := brillSum acc + v, brillCount := Suc (brillCount acc)\<rparr>);
          acc2 = acc1\<lparr>weightedBinSum := weightedBinSum acc1 + real i * v,
                      totalMag := totalMag acc1 + v,
                      fluxSum := fluxSum acc1 + max 0 (v - prevAt prev i)\<rparr>
      in accumulate hzPerBin prev (Suc i) rest acc2)"

text \<open>\<open>count ? Math.min(1, (sum / count / 255) * amp) : 0\<close> and \<open>count ? sum / count : 0\<close>.\<close>

definition normBand :: "real \<Rightarrow> nat \<Rightarrow> real \<Rightarrow> real" where
  "normBand s count amp = (if count \<noteq> 0 then min 1 ((s / real count / 255) * amp) else 0)"

definition avgBand :: "real \<Rightarrow> nat \<Rightarrow> real" where
  "avgBand s count = (if count \<noteq> 0 then s / real count else 0)"

text \<open>
  The rolloff loop from bin \<open>i\<close> on: the first bin at which the accumulated magnitude
  reaches the target; \<open>rolloffBin\<close> keeps its initial 0 when the loop ends without a break.
\<close>

fun rolloffScan :: "real \<Rightarrow> nat \<Rightarrow> 8 word list \<Rightarrow> real \<Rightarrow> nat" where
  "rolloffScan targetEnergy i [] accumulated = 0"
| "rolloffScan targetEnergy i (byte # rest) accumulated =
     (let accumulated' = accumulated + byteVal byte
      in if accumulated' \<ge> targetEnergy then i else rolloffScan targetEnergy (Suc i) rest accumulated')"

text \<open>The constants of the onset block.\<close>

definition alpha_o :: real where "alpha_o = 0.967"
definition ONSET_MULT :: real where "ONSET_MULT = 1.5"
definition ONSET_MIN :: real where "ONSET_MIN = 6"
definition ONSET_GAP :: real where "ONSET_GAP = 0.12"

definition rawBands :: "BandSums \<Rightarrow> Band \<Rightarrow> real" where
  "rawBands bsums band =
     (case band of
        SubBass \<Rightarrow> avgBand (subBassSum bsums) (subBassCount bsums)
      | Bass \<Rightarrow> avgBand (bassSum bsums) (bassCount bsums)
      | Mids \<Rightarrow> avgBand (midsSum bsums) (midsCount bsums)
      | Highs \<Rightarrow> avgBand (highsSum bsums) (highsCount bsums))"

text \<open>
  One round of the loop over the four bands: the flags set so far, the rolling averages
  and the last onset times go in and come out.
\<close>

definition onsetBand ::
  "(Band \<Rightarrow> real) \<Rightarrow> real \<Rightarrow> Band
     \<Rightarrow> (Band \<Rightarrow> bool) \<times> (Band \<Rightarrow> real) \<times> (Band \<Rightarrow> real)
     \<Rightarrow> (Band \<Rightarrow> bool) \<times> (Band \<Rightarrow> real) \<times> (Band \<Rightarrow> real)" where
  "onsetBand raws wallTimeSec band st =
     (case st of (onsets, roll, lastOn) \<Rightarrow>
        let raw = raws band;
            roll1 = roll(band := roll band * alpha_o + raw * (1 - alpha_o));
            threshold = max ONSET_MIN (roll1 band * ONSET_MULT)
        in if raw > threshold \<and> wallTimeSec - lastOn band > ONSET_GAP
           then (onsets(band := True), roll1, lastOn(band := wallTimeSec))
           else (onsets, roll1, lastOn))"

definition onsetLoop ::
  "(Band \<Rightarrow> real) \<Rightarrow> real \<Rightarrow> (Band \<Rightarrow> real) \<Rightarrow> (Band \<Rightarrow> real)
     \<Rightarrow> (Band \<Rightarrow> bool) \<times> (Band \<Rightarrow> real) \<times> (Band \<Rightarrow> real)" where
  "onsetLoop raws wallTimeSec roll lastOn =
     foldl (\<lambda>st band. onsetBand raws wallTimeSec band st) (\<lambda>b. False, roll, lastOn)
       [SubBass, Bass, Mids, Highs]"

text \<open>\<open>Math.round\<close>: the nearest integer, halves upwards.\<close>

definition js_round :: "real \<Rightarrow> real" where
  "js_round x = real_of_int \<lfloor>x + 1 / 2\<rfloor>"

text \<open>
  The body of \<open>if (beatFired)\<close> after the confidence: the interval ring, the tempo and
  the time of the last beat. The quotient \<open>60 / avg\<close> is taken only over gaps that
  passed the 0.18 s spacing test, so \<open>avg\<close> is positive there.
\<close>

definition tempoStep :: "bool \<Rightarrow> real \<Rightarrow> real \<times> real list \<times> real \<Rightarrow> real \<times> real list \<times> real" where
  "tempoStep beatFired wallTimeSec st =
     (case st of (lastT, intervals, tempo) \<Rightarrow>
        if beatFired then
          (if lastT \<ge> 0 then
             (let gap = wallTimeSec - lastT in
              if gap < 2.0 then
                (let pushed = intervals @ [gap];
                     ring = (if length pushed > 8 then tl pushed else pushed)
                 in if length ring \<ge> 2
                    then (wallTimeSec, ring, js_round (60 / (foldl (+) 0 ring / real (length ring))))
                    else (wallTimeSec, ring, tempo))
              else (wallTimeSec, intervals, tempo))
           else (wallTimeSec, intervals, tempo))
        else (lastT, intervals, tempo))"

text \<open>The frame returned when no analyser is attached or the context is not running.\<close>

definition zeroFrame :: "LiveAnalyzer \<Rightarrow> LiveAnalysisFrame" where
  "zeroFrame a =
     \<lparr>subBass = 0, bass = 0, mids = 0, highs = 0, brilliance = 0, rawMids = 0,
      centroid = smCentroid a, flux = 0, rolloff = 0.3, zcr = 0,
      onsets_subBass = False, onsets_bass = False, onsets_mids = False, onsets_highs = False,
      onsetDensity = 0, vocalDetected = False, beat_fired = False, beat_confidence = 0,
      bpm = bpmField a\<rparr>"

text \<open>
  \<open>tick(wallTimeSec)\<close>. \<open>running\<close> is \<open>None\<close> when the analyser or the data array is
  missing or the context is not running, and otherwise holds the bytes that
  \<open>getByteFrequencyData\<close> has written into \<open>dataArray\<close>.
\<close>

definition tick ::
  "real \<Rightarrow> real \<Rightarrow> 8 word list option \<Rightarrow> LiveAnalyzer \<Rightarrow> LiveAnalysisFrame \<times> LiveAnalyzer" where
  "tick wallTimeSec sampleRate running a =
     (case running of
        None \<Rightarrow> (zeroFrame a, a)
      | Some dataArray \<Rightarrow>
          let binCount = length dataArray;
              nyquist = sampleRate / 2;
              hzPerBin = nyquist / real binCount;
              bsums = accumulate hzPerBin (prevDataArray a) 0 dataArray zeroSums;
              amp = (if mode a = Live then 2.0 else 4.0);
              rawSubBass = normBand (subBassSum bsums) (subBassCount bsums) amp;
              rawBass = normBand (bassSum bsums) (bassCount bsums) amp;
              rawMids = normBand (midsSum bsums) (midsCount bsums) amp;
              rawHighs = normBand (highsSum bsums) (highsCount bsums) amp;
              rawBrilliance = normBand (brillSum bsums) (brillCount bsums) amp;
              S = 0.85;
              smSubBass' = smSubBass a * S + rawSubBass * (1 - S);
              smBass' = smBass a * S + rawBass * (1 - S);
              smMids' = smMids a * S + rawMids * (1 - S);
              smHighs' = smHighs a * S + rawHighs * (1 - S);
              smBrilliance' = smBrilliance a * S + rawBrilliance * (1 - S);
              rawCentroid =
                (if totalMag bsums > 0 then (weightedBinSum bsums / totalMag bsums) / real binCount else 0);
              smCentroid' = smCentroid a * 0.88 + rawCentroid * 0.12;
              rawFlux = fluxSum bsums / (real binCount * 255);
              smFlux' = smFlux a * 0.70 + rawFlux * 0.30;
              targetEnergy = totalMag bsums * 0.85;
              rolloffBin = rolloffScan targetEnergy 0 dataArray 0;
              rawRolloff = (if binCount > 0 then real rolloffBin / real binCount else 0);
              smRolloff' = smRolloff a * 0.90 + rawRolloff * 0.10;
              avgBrill = avgBand (brillSum bsums) (brillCount bsums);
              avgTotal = totalMag bsums / real binCount;
              rawZCR = (if avgTotal > 0 then min 1 ((avgBrill / avgTotal) * 3.0) else 0);
              smZCR' = smZCR a * 0.88 + rawZCR * 0.12;
              raws = rawBands bsums
          in (case onsetLoop raws wallTimeSec (onsetRolling a) (lastOnset a) of
                (onsets, onsetRolling', lastOnset') \<Rightarrow>
          let anyOnset = (onsets SubBass \<or> onsets Bass \<or> onsets Mids \<or> onsets Highs);
              onsetDensitySmooth' = onsetDensitySmooth a * 0.992 + (if anyOnset then 1 else 0) * 0.008;
              rawVocalMids = avgBand (midsSum bsums) (midsCount bsums);
              rawVocalBH =
                (avgBand (bassSum bsums) (bassCount bsums) + avgBand (highsSum bsums) (highsCount bsums)) * 0.5;
              vocalMidsRolling' = vocalMidsRolling a * alpha_o + rawVocalMids * (1 - alpha_o);
              vocalBassHighRolling' = vocalBassHighRolling a * alpha_o + rawVocalBH * (1 - alpha_o);
              vocalDetected' = (vocalMidsRolling' > vocalBassHighRolling' * 1.5 \<and> vocalMidsRolling' > 4);
              bassAvg = raws Bass;
              rollingBass' = rollingBass a * 0.94 + bassAvg * 0.06;
              beatThreshold = max 6 (rollingBass' * 1.4);
              gapOk = (lastBeatTime a < 0 \<or> wallTimeSec - lastBeatTime a > 0.18);
              beatFired = (bassAvg > beatThreshold \<and> gapOk);
              confidence' =
                (if beatFired then min 1 ((bassAvg - beatThreshold) / max 1 beatThreshold) else 0)
          in (case tempoStep beatFired wallTimeSec (lastBeatTime a, beatIntervals a, bpmField a) of
                (lastBeatTime', beatIntervals', bpm') \<Rightarrow>
               (\<lparr>subBass = smSubBass', bass = smBass', mids = smMids', highs = smHighs',
                 brilliance = smBrilliance', rawMids = rawMids,
                 centroid = smCentroid', flux = smFlux', rolloff = smRolloff', zcr = smZCR',
                 onsets_subBass = onsets SubBass, onsets_bass = onsets Bass,
                 onsets_mids = onsets Mids, onsets_highs = onsets Highs,
                 onsetDensity = onsetDensitySmooth', vocalDetected = vocalDetected',
                 beat_fired = beatFired, beat_confidence = confidence', bpm = bpm'\<rparr>,
                a\<lparr>prevDataArray := Some dataArray,
                  smSubBass := smSubBass', smBass := smBass', smMids := smMids', smHighs := smHighs',
                  smBrilliance := smBrilliance', smCentroid := smCentroid', smFlux := smFlux',
                  smRolloff := smRolloff', smZCR := smZCR',
                  onsetRolling := onsetRolling', lastOnset := lastOnset',
                  onsetDensitySmooth := onsetDensitySmooth',
                  vocalMidsRolling := vocalMidsRolling', vocalBassHighRolling := vocalBassHighRolling',
                  rollingBass := rollingBass', lastBeatTime := lastBeatTime',
                  beatIntervals := beatIntervals', bpmField := bpm'\<rparr>))))"

text \<open>A sequence of ticks, each with its wall time and what the analyser delivers.\<close>

fun ticks ::
  "real \<Rightarrow> (real \<times> 8 word list option) list \<Rightarrow> LiveAnalyzer \<Rightarrow> LiveAnalysisFrame list \<times> LiveAnalyzer" where
  "ticks sampleRate [] a = ([], a)"
| "ticks sampleRate ((wallTimeSec, running) # calls) a =
     (case tick wallTimeSec sampleRate running a of
        (frame, a') \<Rightarrow> (case ticks sampleRate calls a' of (frames, a'') \<Rightarrow> (frame # frames, a'')))"


subsection \<open>Notions used to state the properties of the analyzer\<close>

text \<open>All running sums of the first loop are zero (the bin counts are free).\<close>

definition sumsZero :: "BandSums \<Rightarrow> bool" where
  "sumsZero acc \<longleftrightarrow>
     subBassSum acc = 0 \<and> bassSum acc = 0 \<and> midsSum acc = 0 \<and> highsSum acc = 0 \<and> brillSum acc = 0
     \<and> weightedBinSum acc = 0 \<and> totalMag acc = 0 \<and> fluxSum acc = 0"

text \<open>The nine smoothed scalars of the state lie in [0, 1].\<close>

definition smoothInRange :: "LiveAnalyzer \<Rightarrow> bool" where
  "smoothInRange a \<longleftrightarrow>
     0 \<le> smSubBass a \<and> smSubBass a \<le> 1 \<and> 0 \<le> smBass a \<and> smBass a \<le> 1
     \<and> 0 \<le> smMids a \<and> smMids a \<le> 1 \<and> 0 \<le> smHighs a \<and> smHighs a \<le> 1
     \<and> 0 \<le> smBrilliance a \<and> smBrilliance a \<le> 1 \<and> 0 \<le> smCentroid a \<and> smCentroid a \<le> 1
     \<and> 0 \<le> smFlux a \<and> smFlux a \<le> 1 \<and> 0 \<le> smRolloff a \<and> smRolloff a \<le> 1
     \<and> 0 \<le> smZCR a \<and> smZCR a \<le> 1"

text \<open>All-zero frequency data of \<open>n\<close> bins, and ticks at the given times that all receive it.\<close>

definition silence :: "nat \<Rightarrow> 8 word list" where
  "silence n = replicate n 0"

definition silentCalls :: "nat \<Rightarrow> real list \<Rightarrow> (real \<times> 8 word list option) list" where
  "silentCalls n ts = map (\<lambda>t. (t, Some (silence n))) ts"

text \<open>
  The smoothed scalars of a frame and of the state, in one order: sub-bass, bass, mids,
  highs, brilliance, centroid, flux, rolloff, noisiness; the retention of each in
  \<open>tick\<close>; and a vector of them after \<open>k\<close> steps in which each is multiplied by its
  retention.
\<close>

definition smoothedOf :: "LiveAnalysisFrame \<Rightarrow> real list" where
  "smoothedOf frame =
     [subBass frame, bass frame, mids frame, highs frame, brilliance frame,
      centroid frame, flux frame, rolloff frame, zcr frame]"

definition smoothedState :: "LiveAnalyzer \<Rightarrow> real list" where
  "smoothedState a =
     [smSubBass a, smBass a, smMids a, smHighs a, smBrilliance a,
      smCentroid a, smFlux a, smRolloff a, smZCR a]"

definition retentions :: "real list" where
  "retentions = [0.85, 0.85, 0.85, 0.85, 0.85, 0.88, 0.70, 0.90, 0.88]"

definition decayed :: "nat \<Rightarrow> real list \<Rightarrow> real list" where
  "decayed k xs = map2 (\<lambda>x r. x * r ^ k) xs retentions"

text \<open>
  The test of one round of the onset loop with the constants written out: \<open>roll\<close> and
  \<open>lastT\<close> are the band's rolling average and last onset time before the round.
\<close>

definition onsetFires :: "real \<Rightarrow> real \<Rightarrow> real \<Rightarrow> real \<Rightarrow> bool" where
  "onsetFires raw roll lastT wallTimeSec \<longleftrightarrow>
     raw > max 6 ((roll * 0.967 + raw * 0.033) * 1.5) \<and> wallTimeSec - lastT > 0.12"









text \<open>What the first loop keeps true of its accumulators when it is at bin \<open>i\<close>.\<close>

definition accOk :: "nat \<Rightarrow> BandSums \<Rightarrow> bool" where
  "accOk i acc \<longleftrightarrow>
     0 \<le> subBassSum acc \<and> 0 \<le> bassSum acc \<and> 0 \<le> midsSum acc \<and> 0 \<le> highsSum acc
     \<and> 0 \<le> brillSum acc \<and> 0 \<le> totalMag acc
     \<and> 0 \<le> weightedBinSum acc \<and> weightedBinSum acc \<le> real i * totalMag acc
     \<and> 0 \<le> fluxSum acc \<and> fluxSum acc \<le> 255 * real i"

text \<open>The raw samples that \<open>tick\<close> smooths, as functions of the bytes.\<close>

definition sumsOf :: "real \<Rightarrow> 8 word list option \<Rightarrow> 8 word list \<Rightarrow> BandSums" where
  "sumsOf sampleRate prev dataArray =
     accumulate (sampleRate / 2 / real (length dataArray)) prev 0 dataArray zeroSums"

definition ampOf :: "LiveAnalyzer \<Rightarrow> real" where
  "ampOf a = (if mode a = Live then 2.0 else 4.0)"

definition rawCentroidOf :: "BandSums \<Rightarrow> nat \<Rightarrow> real" where
  "rawCentroidOf bs binCount =
     (if totalMag bs > 0 then (weightedBinSum bs / totalMag bs) / real binCount else 0)"

definition rawRolloffOf :: "BandSums \<Rightarrow> 8 word list \<Rightarrow> real" where
  "rawRolloffOf bs dataArray =
     (if length dataArray > 0
      then real (rolloffScan (totalMag bs * 0.85) 0 dataArray 0) / real (length dataArray) else 0)"

definition rawZCROf :: "BandSums \<Rightarrow> nat \<Rightarrow> real" where
  "rawZCROf bs binCount =
     (if totalMag bs / real binCount > 0
      then min 1 ((avgBand (brillSum bs) (brillCount bs) / (totalMag bs / real binCount)) * 3.0) else 0)"


text \<open>
  The condition under which the model of \<open>tick\<close> is the code. The data array is
  allocated once for an analyser (\<open>frequencyBinCount\<close>, 1024 bins for the fftSize 2048
  set here) and \<open>prevDataArray\<close> is cleared whenever the source changes, so every array
  delivered has the same positive length \<open>n\<close>, which is also the length of the stored
  previous array when there is one. Outside this condition JavaScript divides 0 by 0
  for the flux of an empty array and \<open>prevDataArray.set\<close> throws for a longer one.
\<close>

definition binsOk :: "nat \<Rightarrow> LiveAnalyzer \<Rightarrow> bool" where
  "binsOk n a \<longleftrightarrow> 0 < n \<and> (case prevDataArray a of None \<Rightarrow> True | Some p \<Rightarrow> length p = n)"

definition callsOk :: "nat \<Rightarrow> (real \<times> 8 word list option) list \<Rightarrow> bool" where
  "callsOk n calls \<longleftrightarrow>
     list_all (\<lambda>c. case snd c of None \<Rightarrow> True | Some d \<Rightarrow> length d = n) calls"





section \<open>Mood palette (three/moodPalette.ts): the colour conversions and \<open>modulate\<close>\<close>














section \<open>Properties of the synchronizer\<close>

lemma eventsFrom_eq:
  "eventsFrom k arr p q
     = map (\<lambda>i. (arr ! i, i + k)) (filter (\<lambda>i. p < start (arr ! i) \<and> start (arr ! i) \<le> q) [0..<length arr])"
proof (induction arr arbitrary: k)
  case Nil
  show ?case by simp
next
  case (Cons x xs)
  have shift: "[0..<length (x # xs)] = 0 # map Suc [0..<length xs]"
    by (simp add: upt_conv_Cons map_Suc_upt del: upt_Suc)
  show ?case
    unfolding shift
    by (simp add: Cons.IH filter_map o_def)
qed

lemma eventsInWindow_eq: "eventsInWindow arr p q = map (\<lambda>i. (arr ! i, i)) (inWindow arr p q)"
  by (simp add: eventsInWindow_def inWindow_def eventsFrom_eq)

lemma inWindow_strict: "sorted_wrt (<) (inWindow arr p q)"
  unfolding inWindow_def by (rule sorted_wrt_filter) simp

lemma inWindow_empty: "q \<le> p \<Longrightarrow> inWindow arr p q = []"
  by (auto simp: inWindow_def filter_empty_conv)

lemma fireLoop_after:
  "sorted_wrt (<) (j # map snd evs) \<Longrightarrow> fireLoop (int j) evs = (if evs = [] then int j else int (snd (last evs)), evs)"
  by (induction evs arbitrary: j) (auto split: prod.splits)

lemma fireLoop_closed:
  assumes "sorted_wrt (<) (map snd evs)"
  shows "snd (fireLoop L evs) = (case evs of [] \<Rightarrow> [] | e # rest \<Rightarrow> if int (snd e) = L then rest else e # rest)"
proof (cases evs)
  case Nil
  then show ?thesis by simp
next
  case (Cons e rest)
  obtain item index where e: "e = (item, index)" by (cases e)
  from assms Cons e have s: "sorted_wrt (<) (index # map snd rest)" by simp
  show ?thesis using fireLoop_after[OF s] Cons e by (auto split: prod.splits)
qed

lemma fireLoop_window:
  "map snd (snd (fireLoop L (eventsInWindow arr p q))) = exceptRepeat L (inWindow arr p q)"
proof -
  have "sorted_wrt (<) (map snd (eventsInWindow arr p q))"
    by (simp add: eventsInWindow_eq o_def inWindow_strict)
  from fireLoop_closed[OF this, of L] show ?thesis
    by (cases "inWindow arr p q") (simp_all add: eventsInWindow_eq exceptRepeat_def o_def)
qed

lemma fireLoop_last:
  "fireLoop L evs = (l, f) \<Longrightarrow> l = (if f = [] then L else int (snd (last f)))"
proof (induction evs arbitrary: L l f)
  case Nil
  then show ?case by simp
next
  case (Cons e evs)
  obtain item index where e: "e = (item, index)" by (cases e)
  show ?case
  proof (cases "int index = L")
    case True
    with Cons.prems e have "fireLoop L evs = (l, f)" by simp
    then show ?thesis by (rule Cons.IH)
  next
    case False
    obtain l' f' where r: "fireLoop (int index) evs = (l', f')" by (cases "fireLoop (int index) evs")
    from Cons.IH[OF r] have l': "l' = (if f' = [] then int index else int (snd (last f')))" .
    from Cons.prems e False r have "l = l'" "f = (item, index) # f'" by simp_all
    with l' show ?thesis by simp
  qed
qed

lemma useBeatSync_playing:
  "useBeatSync (Some a) position True c =
     (if curSecOf position < prevSecOf c position - 0.5
      then (c\<lparr>prevPosition := Some (curSecOf position)\<rparr>, [])
      else
        (case fireLoop (lastBeat c) (eventsInWindow (beats a) (prevSecOf c position) (curSecOf position)) of
           (lb, fb) \<Rightarrow>
        (case fireLoop (lastBar c) (eventsInWindow (bars a) (prevSecOf c position) (curSecOf position)) of
           (lr, fr) \<Rightarrow>
        (case fireLoop (lastSection c) (eventsInWindow (sections a) (prevSecOf c position) (curSecOf position)) of
           (ls, fs) \<Rightarrow>
          (c\<lparr>prevPosition := Some (curSecOf position), lastBeat := lb, lastBar := lr, lastSection := ls\<rparr>,
           map (\<lambda>(item, index). OnBeat index (confidence item)) fb
             @ map (\<lambda>(item, index). OnBar index) fr
             @ map (\<lambda>(item, index). OnSection index) fs)))))"
  unfolding useBeatSync_def Let_def curSecOf_def prevSecOf_def by simp

lemma beatsFired_append: "beatsFired (xs @ ys) = beatsFired xs @ beatsFired ys"
  by (simp add: beatsFired_def map_filter_def)
lemma barsFired_append: "barsFired (xs @ ys) = barsFired xs @ barsFired ys"
  by (simp add: barsFired_def map_filter_def)
lemma sectionsFired_append: "sectionsFired (xs @ ys) = sectionsFired xs @ sectionsFired ys"
  by (simp add: sectionsFired_def map_filter_def)

lemma fired_of_beats:
  "beatsFired (map (\<lambda>(item, index). OnBeat index (confidence item)) fb) = map snd fb"
  "barsFired (map (\<lambda>(item, index). OnBeat index (confidence item)) fb) = []"
  "sectionsFired (map (\<lambda>(item, index). OnBeat index (confidence item)) fb) = []"
  by (induction fb) (auto simp: beatsFired_def barsFired_def sectionsFired_def map_filter_simps)

lemma fired_of_bars:
  "beatsFired (map (\<lambda>(item, index). OnBar index) fr) = []"
  "barsFired (map (\<lambda>(item, index). OnBar index) fr) = map snd fr"
  "sectionsFired (map (\<lambda>(item, index). OnBar index) fr) = []"
  by (induction fr) (auto simp: beatsFired_def barsFired_def sectionsFired_def map_filter_simps)

lemma fired_of_sections:
  "beatsFired (map (\<lambda>(item, index). OnSection index) fs) = []"
  "barsFired (map (\<lambda>(item, index). OnSection index) fs) = []"
  "sectionsFired (map (\<lambda>(item, index). OnSection index) fs) = map snd fs"
  by (induction fs) (auto simp: beatsFired_def barsFired_def sectionsFired_def map_filter_simps)

lemmas fired_simps = beatsFired_append barsFired_append sectionsFired_append
  fired_of_beats fired_of_bars fired_of_sections

lemma useBeatSync_fired:
  "beatsFired (snd (useBeatSync (Some a) position True c))
     = exceptRepeat (lastBeat c) (inWindow (beats a) (prevSecOf c position) (curSecOf position))"
  "barsFired (snd (useBeatSync (Some a) position True c))
     = exceptRepeat (lastBar c) (inWindow (bars a) (prevSecOf c position) (curSecOf position))"
  "sectionsFired (snd (useBeatSync (Some a) position True c))
     = exceptRepeat (lastSection c) (inWindow (sections a) (prevSecOf c position) (curSecOf position))"
proof -
  let ?cur = "curSecOf position" and ?prev = "prevSecOf c position"
  show "beatsFired (snd (useBeatSync (Some a) position True c))
     = exceptRepeat (lastBeat c) (inWindow (beats a) ?prev ?cur)"
  proof (cases "?cur < ?prev - 0.5")
    case True
    then have "inWindow (beats a) ?prev ?cur = []" by (intro inWindow_empty) simp
    with True show ?thesis
      by (simp add: useBeatSync_playing exceptRepeat_def beatsFired_def)
  next
    case False
    then show ?thesis
      using fireLoop_window[of "lastBeat c" "beats a" ?prev ?cur]
      by (auto simp: useBeatSync_playing fired_simps split: prod.splits)
  qed
  show "barsFired (snd (useBeatSync (Some a) position True c))
     = exceptRepeat (lastBar c) (inWindow (bars a) ?prev ?cur)"
  proof (cases "?cur < ?prev - 0.5")
    case True
    then have "inWindow (bars a) ?prev ?cur = []" by (intro inWindow_empty) simp
    with True show ?thesis
      by (simp add: useBeatSync_playing exceptRepeat_def barsFired_def)
  next
    case False
    then show ?thesis
      using fireLoop_window[of "lastBar c" "bars a" ?prev ?cur]
      by (auto simp: useBeatSync_playing fired_simps split: prod.splits)
  qed
  show "sectionsFired (snd (useBeatSync (Some a) position True c))
     = exceptRepeat (lastSection c) (inWindow (sections a) ?prev ?cur)"
  proof (cases "?cur < ?prev - 0.5")
    case True
    then have "inWindow (sections a) ?prev ?cur = []" by (intro inWindow_empty) simp
    with True show ?thesis
      by (simp add: useBeatSync_playing exceptRepeat_def sectionsFired_def)
  next
    case False
    then show ?thesis
      using fireLoop_window[of "lastSection c" "sections a" ?prev ?cur]
      by (auto simp: useBeatSync_playing fired_simps split: prod.splits)
  qed
qed



lemma useBeatSync_prev:
  "prevPosition (fst (useBeatSync (Some a) position True c)) = Some (curSecOf position)"
  by (simp add: useBeatSync_playing split: prod.splits)

lemma useBeatSync_lastBeat:
  "lastBeat (fst (useBeatSync (Some a) position True c))
     = (if beatsFired (snd (useBeatSync (Some a) position True c)) = [] then lastBeat c
        else int (last (beatsFired (snd (useBeatSync (Some a) position True c)))))"
proof (cases "curSecOf position < prevSecOf c position - 0.5")
  case True
  then show ?thesis by (simp add: useBeatSync_playing beatsFired_def)
next
  case False
  obtain lb fb where r: "fireLoop (lastBeat c) (eventsInWindow (beats a) (prevSecOf c position) (curSecOf position)) = (lb, fb)"
    by (cases "fireLoop (lastBeat c) (eventsInWindow (beats a) (prevSecOf c position) (curSecOf position))")
  from fireLoop_last[OF r] have "lb = (if fb = [] then lastBeat c else int (snd (last fb)))" .
  with False r show ?thesis
    by (auto simp: useBeatSync_playing fired_simps last_map split: prod.splits)
qed

lemma runSync_snd_Cons:
  "snd (runSync an ((position, isPlaying) # calls) c)
     = snd (useBeatSync an position isPlaying c) # snd (runSync an calls (fst (useBeatSync an position isPlaying c)))"
  by (simp split: prod.splits)

lemma runSync_fst_Cons:
  "fst (runSync an ((position, isPlaying) # calls) c)
     = fst (runSync an calls (fst (useBeatSync an position isPlaying c)))"
  by (simp split: prod.splits)

lemma three_beats:
  assumes "map start (beats a) = [0.5, 1.0, 1.5]"
  shows "inWindow (beats a) p q = filter (\<lambda>i. p < [0.5, 1.0, 1.5] ! i \<and> [0.5, 1.0, 1.5] ! i \<le> q) [0, 1, 2]"
proof -
  from assms have len: "length (beats a) = 3"
    by (metis length_map length_Cons list.size(3) numeral_3_eq_3)
  have nth: "start (beats a ! i) = [0.5, 1.0, 1.5] ! i" if "i < 3" for i
    using that assms len by (metis nth_map)
  have upt: "[0..<3] = [0, 1, 2::nat]" by (simp add: upt_rec)
  show ?thesis unfolding inWindow_def len upt
    by (rule filter_cong) (auto simp: nth)
qed

lemma forward_states:
  assumes tbl: "map start (beats a) = [0.5, 1.0, 1.5]"
  shows "map beatsFired (snd (runSync (Some a) forwardCalls resetCursor)) = [[], [0], [1], [2]]"
    and "prevPosition (fst (runSync (Some a) forwardCalls resetCursor)) = Some 1.8"
    and "lastBeat (fst (runSync (Some a) forwardCalls resetCursor)) = 2"
proof -
  define c1 where "c1 = fst (useBeatSync (Some a) 0 True resetCursor)"
  define c2 where "c2 = fst (useBeatSync (Some a) 600 True c1)"
  define c3 where "c3 = fst (useBeatSync (Some a) 1200 True c2)"
  define c4 where "c4 = fst (useBeatSync (Some a) 1800 True c3)"
  note tb = three_beats[OF tbl]
  have f1: "beatsFired (snd (useBeatSync (Some a) 0 True resetCursor)) = []"
    unfolding useBeatSync_fired tb
    by (simp add: prevSecOf_def curSecOf_def resetCursor_def exceptRepeat_def)
  have p1: "prevPosition c1 = Some 0" and l1: "lastBeat c1 = - 1"
    unfolding c1_def useBeatSync_prev useBeatSync_lastBeat f1
    by (simp_all add: curSecOf_def resetCursor_def)
  have f2: "beatsFired (snd (useBeatSync (Some a) 600 True c1)) = [0]"
    unfolding useBeatSync_fired tb
    by (simp add: prevSecOf_def curSecOf_def p1 l1 exceptRepeat_def)
  have p2: "prevPosition c2 = Some 0.6" and l2: "lastBeat c2 = 0"
    unfolding c2_def useBeatSync_prev useBeatSync_lastBeat f2
    by (simp_all add: curSecOf_def)
  have f3: "beatsFired (snd (useBeatSync (Some a) 1200 True c2)) = [1]"
    unfolding useBeatSync_fired tb
    by (simp add: prevSecOf_def curSecOf_def p2 l2 exceptRepeat_def)
  have p3: "prevPosition c3 = Some 1.2" and l3: "lastBeat c3 = 1"
    unfolding c3_def useBeatSync_prev useBeatSync_lastBeat f3
    by (simp_all add: curSecOf_def)
  have f4: "beatsFired (snd (useBeatSync (Some a) 1800 True c3)) = [2]"
    unfolding useBeatSync_fired tb
    by (simp add: prevSecOf_def curSecOf_def p3 l3 exceptRepeat_def)
  have p4: "prevPosition c4 = Some 1.8" and l4: "lastBeat c4 = 2"
    unfolding c4_def useBeatSync_prev useBeatSync_lastBeat f4
    by (simp_all add: curSecOf_def)
  have run: "snd (runSync (Some a) forwardCalls resetCursor)
      = [snd (useBeatSync (Some a) 0 True resetCursor), snd (useBeatSync (Some a) 600 True c1),
         snd (useBeatSync (Some a) 1200 True c2), snd (useBeatSync (Some a) 1800 True c3)]"
    unfolding forwardCalls_def runSync_snd_Cons c1_def c2_def c3_def by simp
  have fin: "fst (runSync (Some a) forwardCalls resetCursor) = c4"
    unfolding forwardCalls_def runSync_fst_Cons c1_def c2_def c3_def c4_def by simp
  show "map beatsFired (snd (runSync (Some a) forwardCalls resetCursor)) = [[], [0], [1], [2]]"
    unfolding run by (simp add: f1 f2 f3 f4)
  show "prevPosition (fst (runSync (Some a) forwardCalls resetCursor)) = Some 1.8"
    unfolding fin by (rule p4)
  show "lastBeat (fst (runSync (Some a) forwardCalls resetCursor)) = 2"
    unfolding fin by (rule l4)
qed





text \<open>
  Claim C6. After the forward calls have reached 1.8 s, a call at 0.2 s is a seek: it
  fires nothing, leaves the last-fired beat at 2 and moves the anchor to 0.2 s; the
  next call, at 0.6 s, fires beat 0 again.
\<close>

theorem seek_suppression:
  assumes "map start (beats a) = [0.5, 1.0, 1.5]"
  shows "prevPosition (fst (runSync (Some a) forwardCalls resetCursor)) = Some 1.8
    \<and> snd (useBeatSync (Some a) 200 True (fst (runSync (Some a) forwardCalls resetCursor))) = []
    \<and> prevPosition (fst (useBeatSync (Some a) 200 True (fst (runSync (Some a) forwardCalls resetCursor))))
        = Some 0.2
    \<and> lastBeat (fst (useBeatSync (Some a) 200 True (fst (runSync (Some a) forwardCalls resetCursor)))) = 2
    \<and> beatsFired (snd (useBeatSync (Some a) 600 True
         (fst (useBeatSync (Some a) 200 True (fst (runSync (Some a) forwardCalls resetCursor)))))) = [0]"
proof -
  define c4 where "c4 = fst (runSync (Some a) forwardCalls resetCursor)"
  define c5 where "c5 = fst (useBeatSync (Some a) 200 True c4)"
  have p4: "prevPosition c4 = Some 1.8" and l4: "lastBeat c4 = 2"
    unfolding c4_def using forward_states(2,3)[OF assms] by simp_all
  have seek: "curSecOf 200 < prevSecOf c4 200 - 0.5"
    by (simp add: curSecOf_def prevSecOf_def p4)
  have step: "useBeatSync (Some a) 200 True c4 = (c4\<lparr>prevPosition := Some (curSecOf 200)\<rparr>, [])"
    unfolding useBeatSync_playing using seek by simp
  have e5: "snd (useBeatSync (Some a) 200 True c4) = []"
    by (simp add: step)
  have p5: "prevPosition c5 = Some 0.2" and l5: "lastBeat c5 = 2"
    unfolding c5_def step by (simp_all add: curSecOf_def l4)
  have f6: "beatsFired (snd (useBeatSync (Some a) 600 True c5)) = [0]"
    unfolding useBeatSync_fired three_beats[OF assms]
    by (simp add: prevSecOf_def curSecOf_def p5 l5 exceptRepeat_def)
  from p4 e5 p5 l5 f6 show ?thesis
    unfolding c5_def c4_def by simp
qed

theorem seek_suppression_witness:
  "map start (beats demoAnalysis) = [0.5, 1.0, 1.5]
    \<and> snd (useBeatSync (Some demoAnalysis) 200 True (fst (runSync (Some demoAnalysis) forwardCalls resetCursor))) = []
    \<and> prevPosition (fst (useBeatSync (Some demoAnalysis) 200 True
         (fst (runSync (Some demoAnalysis) forwardCalls resetCursor)))) = Some 0.2
    \<and> beatsFired (snd (useBeatSync (Some demoAnalysis) 600 True
         (fst (useBeatSync (Some demoAnalysis) 200 True
           (fst (runSync (Some demoAnalysis) forwardCalls resetCursor)))))) = [0]"
proof -
  have tbl: "map start (beats demoAnalysis) = [0.5, 1.0, 1.5]"
    by (simp add: demoAnalysis_def)
  from seek_suppression[OF tbl] tbl show ?thesis by simp
qed


section \<open>Properties of the classifier\<close>

lemma raw_scenario:
  "rawScores scenarioRolling = \<lparr>heavy = 1, ambient = 0.19, rhythmic = 0, acoustic = 1, chaotic = 0.3\<rparr>"
  by (simp add: rawScores_def scenarioRolling_def sat_def Let_def)

lemma target_scenario:
  "targetWeightsOf (rawScores scenarioRolling)
     = \<lparr>heavy = 100 / 249, ambient = 19 / 249, rhythmic = 0, acoustic = 100 / 249, chaotic = 30 / 249\<rparr>"
  unfolding raw_scenario by (simp add: targetWeightsOf_def PROFILE_KEYS_def Let_def)

lemma dom_scenario: "dominantOf (targetWeightsOf (rawScores scenarioRolling)) = Acoustic"
  unfolding target_scenario by (simp add: dominantOf_def PROFILE_KEYS_def)

lemma blendWeights_eq:
  "blendWeights w t a =
     \<lparr>heavy = heavy w + (heavy t - heavy w) * a, ambient = ambient w + (ambient t - ambient w) * a,
      rhythmic = rhythmic w + (rhythmic t - rhythmic w) * a,
      acoustic = acoustic w + (acoustic t - acoustic w) * a,
      chaotic = chaotic w + (chaotic t - chaotic w) * a\<rparr>"
  by (simp add: blendWeights_def PROFILE_KEYS_def)

















text \<open>
  Claim C2, as the code has it. With the rolled scalars of the scenario the raw scores
  of heavy and acoustic are both clamped to 1, the highest value, so heavy is highest
  only jointly with acoustic. Weights equal to the normalised scores stay where they
  are under further blending, and the dominant profile reported for them is acoustic:
  the reduce keeps the later key when two weights are equal.
\<close>

theorem heavy_scenario_scores:
  "rawScores scenarioRolling = \<lparr>heavy = 1, ambient = 0.19, rhythmic = 0, acoustic = 1, chaotic = 0.3\<rparr>
   \<and> heavy (rawScores scenarioRolling) = acoustic (rawScores scenarioRolling)
   \<and> ambient (rawScores scenarioRolling) < heavy (rawScores scenarioRolling)
   \<and> rhythmic (rawScores scenarioRolling) < heavy (rawScores scenarioRolling)
   \<and> chaotic (rawScores scenarioRolling) < heavy (rawScores scenarioRolling)
   \<and> (\<forall>a. blendWeights (targetWeightsOf (rawScores scenarioRolling))
              (targetWeightsOf (rawScores scenarioRolling)) a
            = targetWeightsOf (rawScores scenarioRolling))
   \<and> dominant (paramsFromWeights (targetWeightsOf (rawScores scenarioRolling))) = Acoustic"
proof -
  have stay: "blendWeights t t a = t" for t a
    by (simp add: blendWeights_eq)
  have dom: "dominant (paramsFromWeights (targetWeightsOf (rawScores scenarioRolling))) = Acoustic"
    by (simp add: paramsFromWeights_def dom_scenario)
  have scores: "heavy (rawScores scenarioRolling) = acoustic (rawScores scenarioRolling)"
    "ambient (rawScores scenarioRolling) < heavy (rawScores scenarioRolling)"
    "rhythmic (rawScores scenarioRolling) < heavy (rawScores scenarioRolling)"
    "chaotic (rawScores scenarioRolling) < heavy (rawScores scenarioRolling)"
    by (simp_all add: raw_scenario)
  from raw_scenario scores stay dom show ?thesis by blast
qed

text \<open>
  Claim C2 as stated fails: for the weights fully converged to the normalised scores
  of the scenario the reported dominant profile is not heavy.
\<close>

theorem heavy_scenario_counterexample:
  "dominant (paramsFromWeights (targetWeightsOf (rawScores scenarioRolling))) \<noteq> Heavy"
  by (simp add: paramsFromWeights_def dom_scenario)

text \<open>
  Claim C9. A frame whose bass and sub-bass energies are both zero leaves the
  classifier as it was and returns the parameters it already held.
\<close>

theorem update_without_bass_is_noop:
  "bass frame = 0 \<Longrightarrow> subBass frame = 0 \<Longrightarrow> update frame dt c = (params c, c)"
  by (simp add: update_def)

theorem update_without_bass_is_noop_witness:
  "bass silentBassFrame = 0 \<and> subBass silentBassFrame = 0
   \<and> update silentBassFrame (1 / 60) initialClassifier = (params initialClassifier, initialClassifier)"
proof -
  have z: "bass silentBassFrame = 0" "subBass silentBassFrame = 0"
    by (simp_all add: silentBassFrame_def)
  from z update_without_bass_is_noop[OF z, of "1 / 60" initialClassifier] show ?thesis by simp
qed

section \<open>Properties of the analyzer\<close>

lemma byteVal_nonneg: "0 \<le> byteVal b"
  unfolding byteVal_def by (rule of_nat_0_le_iff)

lemma byteVal_zero: "byteVal 0 = 0"
  by (simp add: byteVal_def)

lemma prevAt_nonneg: "0 \<le> prevAt prev i"
  by (simp add: prevAt_def byteVal_nonneg split: option.splits)

lemma accumulate_silence:
  "sumsZero acc \<Longrightarrow> sumsZero (accumulate hzPerBin prev i (replicate n 0) acc)"
proof (induction n arbitrary: i acc)
  case 0
  then show ?case by simp
next
  case (Suc n)
  have m: "max 0 (- prevAt prev i) = 0"
    using prevAt_nonneg[of prev i] by simp
  show ?case
    unfolding replicate_Suc accumulate.simps Let_def
    by (rule Suc.IH) (use Suc.prems in \<open>simp add: sumsZero_def m byteVal_zero\<close>)
qed

lemma zeroSums_zero: "sumsZero zeroSums"
  by (simp add: sumsZero_def zeroSums_def)

lemma rolloffScan_silence: "0 < n \<Longrightarrow> rolloffScan 0 0 (replicate n 0) 0 = 0"
  by (cases n) (simp_all add: byteVal_zero)

lemma normBand_zero: "normBand 0 c amp = 0"
  by (simp add: normBand_def)

lemma avgBand_zero: "avgBand 0 c = 0"
  by (simp add: avgBand_def)

lemma rawBands_zero: "sumsZero bs \<Longrightarrow> rawBands bs band = 0"
  by (cases band) (simp_all add: rawBands_def sumsZero_def avgBand_zero)

lemma onsetBand_quiet:
  assumes "raws band \<le> 6"
  shows "onsetBand raws t band (onsets, roll, lastOn)
     = (onsets, roll(band := roll band * alpha_o + raws band * (1 - alpha_o)), lastOn)"
proof -
  have "\<not> raws band > ONSET_MIN"
    using assms by (simp add: ONSET_MIN_def)
  then show ?thesis by (simp add: onsetBand_def Let_def)
qed

lemma onsetLoop_quiet:
  assumes "\<And>band. raws band \<le> 6"
  shows "fst (onsetLoop raws t roll lastOn) = (\<lambda>b. False)"
    and "snd (snd (onsetLoop raws t roll lastOn)) = lastOn"
  by (simp_all add: onsetLoop_def onsetBand_quiet assms)

lemma tick_silence:
  assumes "0 < n"
  shows "tick t sr (Some (silence n)) a =
    (\<lparr>subBass = smSubBass a * 0.85, bass = smBass a * 0.85, mids = smMids a * 0.85,
      highs = smHighs a * 0.85, brilliance = smBrilliance a * 0.85, rawMids = 0,
      centroid = smCentroid a * 0.88, flux = smFlux a * 0.70, rolloff = smRolloff a * 0.90,
      zcr = smZCR a * 0.88,
      onsets_subBass = False, onsets_bass = False, onsets_mids = False, onsets_highs = False,
      onsetDensity = onsetDensitySmooth a * 0.992,
      vocalDetected = (vocalMidsRolling a * alpha_o > vocalBassHighRolling a * alpha_o * 1.5
                       \<and> vocalMidsRolling a * alpha_o > 4),
      beat_fired = False, beat_confidence = 0, bpm = bpmField a\<rparr>,
     a\<lparr>prevDataArray := Some (silence n),
       smSubBass := smSubBass a * 0.85, smBass := smBass a * 0.85, smMids := smMids a * 0.85,
       smHighs := smHighs a * 0.85, smBrilliance := smBrilliance a * 0.85,
       smCentroid := smCentroid a * 0.88, smFlux := smFlux a * 0.70,
       smRolloff := smRolloff a * 0.90, smZCR := smZCR a * 0.88,
       onsetRolling := (\<lambda>b. onsetRolling a b * alpha_o), lastOnset := lastOnset a,
       onsetDensitySmooth := onsetDensitySmooth a * 0.992,
       vocalMidsRolling := vocalMidsRolling a * alpha_o,
       vocalBassHighRolling := vocalBassHighRolling a * alpha_o,
       rollingBass := rollingBass a * 0.94, lastBeatTime := lastBeatTime a,
       beatIntervals := beatIntervals a, bpmField := bpmField a\<rparr>)"
proof -
  define bs where "bs = accumulate (sr / 2 / real n) (prevDataArray a) 0 (silence n) zeroSums"
  have z: "sumsZero bs"
    unfolding bs_def silence_def by (rule accumulate_silence[OF zeroSums_zero])
  then have f: "subBassSum bs = 0" "bassSum bs = 0" "midsSum bs = 0" "highsSum bs = 0" "brillSum bs = 0"
    "weightedBinSum bs = 0" "totalMag bs = 0" "fluxSum bs = 0"
    by (simp_all add: sumsZero_def)
  have raws: "rawBands bs = (\<lambda>b. 0)"
    by (rule ext) (rule rawBands_zero[OF z])
  have ro: "rolloffScan 0 0 (silence n) 0 = 0"
    unfolding silence_def by (rule rolloffScan_silence[OF assms])
  have loop: "onsetLoop (\<lambda>b. 0) t (onsetRolling a) (lastOnset a)
      = (\<lambda>b. False, \<lambda>b. onsetRolling a b * alpha_o, lastOnset a)"
  proof -
    have "(onsetRolling a)(SubBass := onsetRolling a SubBass * alpha_o, Bass := onsetRolling a Bass * alpha_o,
        Mids := onsetRolling a Mids * alpha_o, Highs := onsetRolling a Highs * alpha_o)
      = (\<lambda>b. onsetRolling a b * alpha_o)"
      by (rule ext) (case_tac b; simp)
    then show ?thesis
      by (simp add: onsetLoop_def onsetBand_quiet)
  qed
  have len: "length (silence n) = n" by (simp add: silence_def)
  have tempo: "tempoStep False t st = st" for st
    by (cases st) (simp add: tempoStep_def)
  show ?thesis
    unfolding tick_def option.case Let_def len bs_def[symmetric] f raws loop
    by (simp add: normBand_zero avgBand_zero ro tempo assms)
qed

lemma smoothInRange_iff: "smoothInRange a \<longleftrightarrow> (\<forall>x \<in> set (smoothedState a). 0 \<le> x \<and> x \<le> 1)"
  by (auto simp: smoothInRange_def smoothedState_def)

lemma tick_silence_frame:
  "0 < n \<Longrightarrow> smoothedOf (fst (tick t sr (Some (silence n)) a)) = decayed (Suc 0) (smoothedState a)"
  by (simp add: tick_silence smoothedOf_def smoothedState_def decayed_def retentions_def)

lemma tick_silence_state:
  "0 < n \<Longrightarrow> smoothedState (snd (tick t sr (Some (silence n)) a)) = decayed (Suc 0) (smoothedState a)"
  by (simp add: tick_silence smoothedOf_def smoothedState_def decayed_def retentions_def)

lemma length_smoothedState: "length (smoothedState a) = 9"
  by (simp add: smoothedState_def)

lemma decayed_decayed:
  "length xs = 9 \<Longrightarrow> decayed k (decayed (Suc 0) xs) = decayed (Suc k) xs"
proof -
  assume "length xs = 9"
  then obtain x1 x2 x3 x4 x5 x6 x7 x8 x9 where "xs = [x1, x2, x3, x4, x5, x6, x7, x8, x9]"
    by (auto simp: length_Suc_conv eval_nat_numeral)
  then show ?thesis by (simp add: decayed_def retentions_def)
qed

lemma ticks_silent_Cons:
  "ticks sr (silentCalls n (t # ts)) a =
     (fst (tick t sr (Some (silence n)) a) # fst (ticks sr (silentCalls n ts) (snd (tick t sr (Some (silence n)) a))),
      snd (ticks sr (silentCalls n ts) (snd (tick t sr (Some (silence n)) a))))"
  by (simp add: silentCalls_def split: prod.splits)

lemma silent_frames:
  "0 < n \<Longrightarrow> j < length ts \<Longrightarrow>
     smoothedOf (fst (ticks sr (silentCalls n ts) a) ! j) = decayed (Suc j) (smoothedState a)"
proof (induction ts arbitrary: a j)
  case Nil
  then show ?case by simp
next
  case (Cons t ts)
  show ?case
  proof (cases j)
    case 0
    with Cons.prems show ?thesis
      by (simp add: ticks_silent_Cons tick_silence_frame)
  next
    case (Suc j')
    with Cons.prems have "j' < length ts" by simp
    from Cons.IH[OF Cons.prems(1) this, of "snd (tick t sr (Some (silence n)) a)"] Suc Cons.prems(1)
    show ?thesis
      by (simp add: ticks_silent_Cons tick_silence_state decayed_decayed length_smoothedState)
  qed
qed

lemma silent_state:
  "0 < n \<Longrightarrow> smoothedState (snd (ticks sr (silentCalls n ts) a)) = decayed (length ts) (smoothedState a)"
proof (induction ts arbitrary: a)
  case Nil
  have "decayed 0 xs = xs" if "length xs = 9" for xs
  proof -
    from that obtain x1 x2 x3 x4 x5 x6 x7 x8 x9 where "xs = [x1, x2, x3, x4, x5, x6, x7, x8, x9]"
      by (auto simp: length_Suc_conv eval_nat_numeral)
    then show ?thesis by (simp add: decayed_def retentions_def)
  qed
  then show ?case by (simp add: silentCalls_def length_smoothedState)
next
  case (Cons t ts)
  from Cons.IH[OF Cons.prems, of "snd (tick t sr (Some (silence n)) a)"] Cons.prems
  show ?case
    by (simp add: ticks_silent_Cons tick_silence_state decayed_decayed length_smoothedState)
qed

lemma decayed_nth:
  "i < 9 \<Longrightarrow> length xs = 9 \<Longrightarrow> decayed k xs ! i = xs ! i * (retentions ! i) ^ k"
  by (simp add: decayed_def retentions_def)

lemma retentions_range: "i < 9 \<Longrightarrow> 0 < retentions ! i \<and> retentions ! i \<le> 0.9"
  by (auto simp: retentions_def nth_Cons' )

lemma decayed_bounds:
  assumes "length xs = 9" "\<forall>x \<in> set xs. 0 \<le> x \<and> x \<le> 1" "i < 9"
  shows "0 \<le> decayed k xs ! i" "decayed k xs ! i \<le> 0.9 ^ k" "decayed (Suc k) xs ! i \<le> decayed k xs ! i"
proof -
  let ?x = "xs ! i" and ?r = "retentions ! i"
  from assms have x: "0 \<le> ?x" "?x \<le> 1" by (auto simp: all_set_conv_all_nth)
  from retentions_range[OF assms(3)] have r: "0 < ?r" "?r \<le> 0.9" by simp_all
  have d: "decayed k xs ! i = ?x * ?r ^ k" for k
    by (rule decayed_nth[OF assms(3) assms(1)])
  from x r show "0 \<le> decayed k xs ! i" unfolding d by simp
  have "?r ^ k \<le> 0.9 ^ k" using r by (intro power_mono) simp_all
  moreover have "0 \<le> ?r ^ k" using r by simp
  ultimately have "?x * ?r ^ k \<le> 1 * 0.9 ^ k" using x by (intro mult_mono) simp_all
  then show "decayed k xs ! i \<le> 0.9 ^ k" unfolding d by simp
  have "?r ^ Suc k \<le> ?r ^ k" using r by (intro power_decreasing) simp_all
  then have "?x * ?r ^ Suc k \<le> ?x * ?r ^ k" using x by (intro mult_left_mono) simp_all
  then show "decayed (Suc k) xs ! i \<le> decayed k xs ! i" unfolding d .
qed

lemma tolerance: "0 < (e::real) \<Longrightarrow> \<exists>N. \<forall>k\<ge>N. (0.9::real) ^ k < e"
proof -
  assume "0 < e"
  then obtain N where N: "(0.9::real) ^ N < e"
    using real_arch_pow_inv[of e "0.9"] by auto
  have "(0.9::real) ^ k < e" if "N \<le> k" for k
  proof -
    have "(0.9::real) ^ k \<le> 0.9 ^ N" using that by (intro power_decreasing) simp_all
    then show ?thesis using N by (rule le_less_trans)
  qed
  then show ?thesis by blast
qed

lemma onsetBand_eq:
  "onsetBand raws t band (onsets, roll, lastOn) =
     (if onsetFires (raws band) (roll band) (lastOn band) t
      then (onsets(band := True), roll(band := roll band * 0.967 + raws band * 0.033), lastOn(band := t))
      else (onsets, roll(band := roll band * 0.967 + raws band * 0.033), lastOn))"
  by (simp add: onsetBand_def onsetFires_def Let_def alpha_o_def ONSET_MIN_def ONSET_MULT_def ONSET_GAP_def)

lemma onsetLoop_eq:
  "onsetLoop raws t roll lastOn =
     (\<lambda>b. onsetFires (raws b) (roll b) (lastOn b) t,
      \<lambda>b. roll b * 0.967 + raws b * 0.033,
      \<lambda>b. if onsetFires (raws b) (roll b) (lastOn b) t then t else lastOn b)"
proof -
  obtain o1 r1 l1 where s1: "onsetBand raws t SubBass (\<lambda>b. False, roll, lastOn) = (o1, r1, l1)"
    by (cases "onsetBand raws t SubBass (\<lambda>b. False, roll, lastOn)")
  obtain o2 r2 l2 where s2: "onsetBand raws t Bass (o1, r1, l1) = (o2, r2, l2)"
    by (cases "onsetBand raws t Bass (o1, r1, l1)")
  obtain o3 r3 l3 where s3: "onsetBand raws t Mids (o2, r2, l2) = (o3, r3, l3)"
    by (cases "onsetBand raws t Mids (o2, r2, l2)")
  obtain o4 r4 l4 where s4: "onsetBand raws t Highs (o3, r3, l3) = (o4, r4, l4)"
    by (cases "onsetBand raws t Highs (o3, r3, l3)")
  have loop: "onsetLoop raws t roll lastOn = (o4, r4, l4)"
    by (simp add: onsetLoop_def s1 s2 s3 s4)
  have e1: "o1 = (\<lambda>b. False)(SubBass := onsetFires (raws SubBass) (roll SubBass) (lastOn SubBass) t)"
    "r1 = roll(SubBass := roll SubBass * 0.967 + raws SubBass * 0.033)"
    "l1 = lastOn(SubBass := if onsetFires (raws SubBass) (roll SubBass) (lastOn SubBass) t then t else lastOn SubBass)"
    using s1 unfolding onsetBand_eq by (auto split: if_splits)
  have e2: "o2 = o1(Bass := onsetFires (raws Bass) (roll Bass) (lastOn Bass) t)"
    "r2 = r1(Bass := roll Bass * 0.967 + raws Bass * 0.033)"
    "l2 = l1(Bass := if onsetFires (raws Bass) (roll Bass) (lastOn Bass) t then t else lastOn Bass)"
    using s2 unfolding onsetBand_eq e1 by (auto split: if_splits)
  have e3: "o3 = o2(Mids := onsetFires (raws Mids) (roll Mids) (lastOn Mids) t)"
    "r3 = r2(Mids := roll Mids * 0.967 + raws Mids * 0.033)"
    "l3 = l2(Mids := if onsetFires (raws Mids) (roll Mids) (lastOn Mids) t then t else lastOn Mids)"
    using s3 unfolding onsetBand_eq e2 e1 by (auto split: if_splits)
  have e4: "o4 = o3(Highs := onsetFires (raws Highs) (roll Highs) (lastOn Highs) t)"
    "r4 = r3(Highs := roll Highs * 0.967 + raws Highs * 0.033)"
    "l4 = l3(Highs := if onsetFires (raws Highs) (roll Highs) (lastOn Highs) t then t else lastOn Highs)"
    using s4 unfolding onsetBand_eq e3 e2 e1 by (auto split: if_splits)
  have "o4 = (\<lambda>b. onsetFires (raws b) (roll b) (lastOn b) t)"
    unfolding e4 e3 e2 e1 by (rule ext) (case_tac b; simp)
  moreover have "r4 = (\<lambda>b. roll b * 0.967 + raws b * 0.033)"
    unfolding e4 e3 e2 e1 by (rule ext) (case_tac b; simp)
  moreover have "l4 = (\<lambda>b. if onsetFires (raws b) (roll b) (lastOn b) t then t else lastOn b)"
    unfolding e4 e3 e2 e1 by (rule ext) (case_tac b; simp)
  ultimately show ?thesis unfolding loop by simp
qed




lemma tick_idle: "tick t sr None a = (zeroFrame a, a)"
  by (simp add: tick_def)




lemma ticks_Cons:
  "ticks sr ((t, running) # calls) a =
     (fst (tick t sr running a) # fst (ticks sr calls (snd (tick t sr running a))),
      snd (ticks sr calls (snd (tick t sr running a))))"
  by (simp split: prod.splits)
























lemma tick_prev: "prevDataArray (snd (tick t sr (Some d) a)) = Some d"
  unfolding tick_def option.case Let_def onsetLoop_eq prod.case case_prod_beta fst_conv snd_conv
  by simp



lemma byteVal_le: "byteVal b \<le> 255"
proof -
  have "unat b < 2 ^ LENGTH(8)" by (rule unsigned_less)
  then have "unat b \<le> 255" by simp
  then have "real (unat b) \<le> real (255::nat)" by (rule of_nat_mono)
  also have "real (255::nat) = 255" by simp
  finally show ?thesis unfolding byteVal_def .
qed

lemma prevAt_le: "prevAt prev i \<le> 255"
  by (simp add: prevAt_def byteVal_le split: option.splits)

lemma accumulate_ok:
  "accOk i acc \<Longrightarrow> accOk (i + length dataArray) (accumulate hzPerBin prev i dataArray acc)"
proof (induction dataArray arbitrary: i acc)
  case Nil
  then show ?case by simp
next
  case (Cons byte rest)
  define v where "v = byteVal byte"
  define f where "f = max 0 (v - prevAt prev i)"
  have v: "0 \<le> v" "v \<le> 255"
    unfolding v_def by (rule byteVal_nonneg, rule byteVal_le)
  have fl: "0 \<le> f" "f \<le> 255"
    unfolding f_def using v prevAt_nonneg[of prev i] by simp_all
  from Cons.prems have w: "weightedBinSum acc \<le> real i * totalMag acc" and t: "0 \<le> totalMag acc"
    and w0: "0 \<le> weightedBinSum acc" and f0: "0 \<le> fluxSum acc" "fluxSum acc \<le> 255 * real i"
    by (simp_all add: accOk_def)
  have "weightedBinSum acc + real i * v \<le> real i * totalMag acc + real i * v" using w by simp
  also have "\<dots> \<le> real (Suc i) * (totalMag acc + v)"
    using t v by (simp add: algebra_simps)
  finally have w': "weightedBinSum acc + real i * v \<le> real (Suc i) * (totalMag acc + v)" .
  have w0': "0 \<le> weightedBinSum acc + real i * v" using w0 v by simp
  have f': "0 \<le> fluxSum acc + f" "fluxSum acc + f \<le> 255 * real (Suc i)"
    using f0 fl by simp_all
  have t': "0 \<le> totalMag acc + v" using t v by simp
  define acc1 where "acc1 =
      (if real i * hzPerBin < 60 then acc\<lparr>subBassSum := subBassSum acc + v, subBassCount := Suc (subBassCount acc)\<rparr>
       else if real i * hzPerBin < 250 then acc\<lparr>bassSum := bassSum acc + v, bassCount := Suc (bassCount acc)\<rparr>
       else if real i * hzPerBin < 2000 then acc\<lparr>midsSum := midsSum acc + v, midsCount := Suc (midsCount acc)\<rparr>
       else if real i * hzPerBin < 6000 then acc\<lparr>highsSum := highsSum acc + v, highsCount := Suc (highsCount acc)\<rparr>
       else acc\<lparr>brillSum := brillSum acc + v, brillCount := Suc (brillCount acc)\<rparr>)"
  have keep: "weightedBinSum acc1 = weightedBinSum acc" "totalMag acc1 = totalMag acc" "fluxSum acc1 = fluxSum acc"
    by (simp_all add: acc1_def)
  have bands: "0 \<le> subBassSum acc1" "0 \<le> bassSum acc1" "0 \<le> midsSum acc1" "0 \<le> highsSum acc1"
    "0 \<le> brillSum acc1"
    using Cons.prems v(1) by (simp_all add: acc1_def accOk_def)
  have step: "accOk (Suc i)
      (acc1\<lparr>weightedBinSum := weightedBinSum acc1 + real i * v,
            totalMag := totalMag acc1 + v,
            fluxSum := fluxSum acc1 + f\<rparr>)"
    unfolding accOk_def keep using bands w' w0' f' t' by simp
  have same: "accumulate hzPerBin prev i (byte # rest) acc =
      accumulate hzPerBin prev (Suc i) rest
       (acc1\<lparr>weightedBinSum := weightedBinSum acc1 + real i * v,
            totalMag := totalMag acc1 + v,
            fluxSum := fluxSum acc1 + f\<rparr>)"
    unfolding acc1_def v_def f_def by (simp add: Let_def)
  from Cons.IH[OF step] show ?case unfolding same by simp
qed

lemma sumsOf_ok: "accOk (length dataArray) (sumsOf sr prev dataArray)"
proof -
  have "accOk 0 zeroSums" by (simp add: accOk_def zeroSums_def)
  from accumulate_ok[OF this, of dataArray] show ?thesis by (simp add: sumsOf_def)
qed

lemma rolloffScan_le: "rolloffScan target i dataArray acc \<le> i + length dataArray"
proof (induction dataArray arbitrary: i acc)
  case Nil
  show ?case by simp
next
  case (Cons byte rest)
  from Cons[of "Suc i" "acc + byteVal byte"] show ?case by (simp add: Let_def)
qed

lemma normBand_range: "0 \<le> s \<Longrightarrow> 0 \<le> amp \<Longrightarrow> 0 \<le> normBand s c amp \<and> normBand s c amp \<le> 1"
  by (simp add: normBand_def)

lemma avgBand_nonneg: "0 \<le> s \<Longrightarrow> 0 \<le> avgBand s c"
  by (simp add: avgBand_def)

lemma rawCentroid_range:
  assumes "accOk n bs"
  shows "0 \<le> rawCentroidOf bs n" "rawCentroidOf bs n \<le> 1"
proof -
  from assms have w: "0 \<le> weightedBinSum bs" "weightedBinSum bs \<le> real n * totalMag bs"
    by (simp_all add: accOk_def)
  show "0 \<le> rawCentroidOf bs n"
    using w by (simp add: rawCentroidOf_def)
  show "rawCentroidOf bs n \<le> 1"
  proof (cases "totalMag bs > 0")
    case False
    then show ?thesis by (simp add: rawCentroidOf_def)
  next
    case True
    then have q: "weightedBinSum bs / totalMag bs \<le> real n"
      using w(2) by (simp add: pos_divide_le_eq)
    show ?thesis
    proof (cases "n = 0")
      case True
      then show ?thesis by (simp add: rawCentroidOf_def)
    next
      case False
      with q \<open>totalMag bs > 0\<close> show ?thesis
        by (simp add: rawCentroidOf_def pos_divide_le_eq mult.commute)
    qed
  qed
qed

lemma rawFlux_range:
  assumes "accOk n bs"
  shows "0 \<le> fluxSum bs / (real n * 255)" "fluxSum bs / (real n * 255) \<le> 1"
proof -
  from assms have f: "0 \<le> fluxSum bs" "fluxSum bs \<le> 255 * real n"
    by (simp_all add: accOk_def)
  show "0 \<le> fluxSum bs / (real n * 255)" using f by simp
  show "fluxSum bs / (real n * 255) \<le> 1"
  proof (cases "n = 0")
    case True
    then show ?thesis by simp
  next
    case False
    with f show ?thesis by (simp add: pos_divide_le_eq mult.commute)
  qed
qed

lemma rawRolloff_range: "0 \<le> rawRolloffOf bs dataArray" "rawRolloffOf bs dataArray \<le> 1"
proof -
  show "0 \<le> rawRolloffOf bs dataArray" by (simp add: rawRolloffOf_def)
  have "rolloffScan (totalMag bs * 0.85) 0 dataArray 0 \<le> length dataArray"
    using rolloffScan_le[of "totalMag bs * 0.85" 0 dataArray 0] by simp
  then show "rawRolloffOf bs dataArray \<le> 1"
    by (simp add: rawRolloffOf_def pos_divide_le_eq)
qed

lemma rawZCR_range:
  assumes "accOk n bs"
  shows "0 \<le> rawZCROf bs m" "rawZCROf bs m \<le> 1"
proof -
  from assms have b: "0 \<le> brillSum bs" by (simp add: accOk_def)
  show "rawZCROf bs m \<le> 1" by (simp add: rawZCROf_def)
  show "0 \<le> rawZCROf bs m"
  proof (cases "totalMag bs / real m > 0")
    case False
    then show ?thesis by (simp add: rawZCROf_def)
  next
    case True
    have "0 \<le> avgBand (brillSum bs) (brillCount bs) / (totalMag bs / real m)"
      using avgBand_nonneg[OF b, of "brillCount bs"] True by (intro divide_nonneg_pos)
    then have "0 \<le> (avgBand (brillSum bs) (brillCount bs) / (totalMag bs / real m)) * 3.0"
      by (rule mult_nonneg_nonneg) simp
    then have "0 \<le> min 1 ((avgBand (brillSum bs) (brillCount bs) / (totalMag bs / real m)) * 3.0)"
      by simp
    with True show ?thesis unfolding rawZCROf_def by (simp only: if_True)
  qed
qed

lemma ema_range:
  fixes x y r :: real
  assumes "0 \<le> x" "x \<le> 1" "0 \<le> y" "y \<le> 1" "0 \<le> r" "r \<le> 1"
  shows "0 \<le> x * r + y * (1 - r)" "x * r + y * (1 - r) \<le> 1"
proof -
  show "0 \<le> x * r + y * (1 - r)" using assms by simp
  have "x * r \<le> 1 * r" using assms by (intro mult_right_mono) simp_all
  moreover have "y * (1 - r) \<le> 1 * (1 - r)" using assms by (intro mult_right_mono) simp_all
  ultimately have "x * r + y * (1 - r) \<le> 1 * r + 1 * (1 - r)" by (rule add_mono)
  then show "x * r + y * (1 - r) \<le> 1" by simp
qed

lemma tick_smoothedState:
  "smoothedState (snd (tick t sr (Some d) a)) =
     [smSubBass a * 0.85
        + normBand (subBassSum (sumsOf sr (prevDataArray a) d)) (subBassCount (sumsOf sr (prevDataArray a) d)) (ampOf a) * (1 - 0.85),
      smBass a * 0.85
        + normBand (bassSum (sumsOf sr (prevDataArray a) d)) (bassCount (sumsOf sr (prevDataArray a) d)) (ampOf a) * (1 - 0.85),
      smMids a * 0.85
        + normBand (midsSum (sumsOf sr (prevDataArray a) d)) (midsCount (sumsOf sr (prevDataArray a) d)) (ampOf a) * (1 - 0.85),
      smHighs a * 0.85
        + normBand (highsSum (sumsOf sr (prevDataArray a) d)) (highsCount (sumsOf sr (prevDataArray a) d)) (ampOf a) * (1 - 0.85),
      smBrilliance a * 0.85
        + normBand (brillSum (sumsOf sr (prevDataArray a) d)) (brillCount (sumsOf sr (prevDataArray a) d)) (ampOf a) * (1 - 0.85),
      smCentroid a * 0.88 + rawCentroidOf (sumsOf sr (prevDataArray a) d) (length d) * (1 - 0.88),
      smFlux a * 0.70 + fluxSum (sumsOf sr (prevDataArray a) d) / (real (length d) * 255) * (1 - 0.70),
      smRolloff a * 0.90 + rawRolloffOf (sumsOf sr (prevDataArray a) d) d * (1 - 0.90),
      smZCR a * 0.88 + rawZCROf (sumsOf sr (prevDataArray a) d) (length d) * (1 - 0.88)]"
  unfolding tick_def option.case Let_def onsetLoop_eq prod.case case_prod_beta fst_conv snd_conv
    sumsOf_def ampOf_def rawCentroidOf_def rawRolloffOf_def rawZCROf_def smoothedState_def
  by simp


lemma ampOf_pos: "0 \<le> ampOf a"
  by (simp add: ampOf_def)

lemma tick_inRange_Some:
  assumes "smoothInRange a"
  shows "smoothInRange (snd (tick t sr (Some d) a))"
proof -
  define bs where "bs = sumsOf sr (prevDataArray a) d"
  have ok: "accOk (length d) bs" unfolding bs_def by (rule sumsOf_ok)
  then have nn: "0 \<le> subBassSum bs" "0 \<le> bassSum bs" "0 \<le> midsSum bs" "0 \<le> highsSum bs" "0 \<le> brillSum bs"
    by (simp_all add: accOk_def)
  from assms have st: "0 \<le> smSubBass a" "smSubBass a \<le> 1" "0 \<le> smBass a" "smBass a \<le> 1"
    "0 \<le> smMids a" "smMids a \<le> 1" "0 \<le> smHighs a" "smHighs a \<le> 1"
    "0 \<le> smBrilliance a" "smBrilliance a \<le> 1" "0 \<le> smCentroid a" "smCentroid a \<le> 1"
    "0 \<le> smFlux a" "smFlux a \<le> 1" "0 \<le> smRolloff a" "smRolloff a \<le> 1"
    "0 \<le> smZCR a" "smZCR a \<le> 1"
    by (simp_all add: smoothInRange_def)
  have r: "(0::real) \<le> 0.85" "(0.85::real) \<le> 1" "(0::real) \<le> 0.88" "(0.88::real) \<le> 1"
    "(0::real) \<le> 0.70" "(0.70::real) \<le> 1" "(0::real) \<le> 0.90" "(0.90::real) \<le> 1"
    by simp_all
  note nb = normBand_range[OF _ ampOf_pos[of a]]
  have "\<forall>x \<in> set (smoothedState (snd (tick t sr (Some d) a))). 0 \<le> x \<and> x \<le> 1"
    unfolding tick_smoothedState bs_def[symmetric]
    using ema_range[OF st(1,2) nb[OF nn(1), THEN conjunct1] nb[OF nn(1), THEN conjunct2] r(1,2)]
      ema_range[OF st(3,4) nb[OF nn(2), THEN conjunct1] nb[OF nn(2), THEN conjunct2] r(1,2)]
      ema_range[OF st(5,6) nb[OF nn(3), THEN conjunct1] nb[OF nn(3), THEN conjunct2] r(1,2)]
      ema_range[OF st(7,8) nb[OF nn(4), THEN conjunct1] nb[OF nn(4), THEN conjunct2] r(1,2)]
      ema_range[OF st(9,10) nb[OF nn(5), THEN conjunct1] nb[OF nn(5), THEN conjunct2] r(1,2)]
      ema_range[OF st(11,12) rawCentroid_range[OF ok] r(3,4)]
      ema_range[OF st(13,14) rawFlux_range[OF ok] r(5,6)]
      ema_range[OF st(15,16) rawRolloff_range[of bs d] r(7,8)]
      ema_range[OF st(17,18) rawZCR_range[OF ok, of "length d"] r(3,4)]
    by (simp only: list.set ball_simps insert_iff empty_iff simp_thms)
  then show ?thesis by (simp only: smoothInRange_iff)
qed

lemma tick_inRange: "smoothInRange a \<Longrightarrow> smoothInRange (snd (tick t sr running a))"
  by (cases running) (simp_all add: tick_idle tick_inRange_Some)

lemma ticks_inRange: "smoothInRange a \<Longrightarrow> smoothInRange (snd (ticks sr calls a))"
proof (induction calls arbitrary: a)
  case Nil
  then show ?case by simp
next
  case (Cons c calls)
  obtain t running where c: "c = (t, running)" by (cases c)
  from Cons.IH[OF tick_inRange[OF Cons.prems, of t sr running]] show ?case
    unfolding c ticks_Cons by simp
qed

lemma initial_binsOk: "0 < n \<Longrightarrow> binsOk n (initialAnalyzer m)"
  by (simp add: binsOk_def initialAnalyzer_def)

lemma tick_binsOk:
  assumes "binsOk n a" and "case running of None \<Rightarrow> True | Some d \<Rightarrow> length d = n"
  shows "binsOk n (snd (tick t sr running a))"
proof (cases running)
  case None
  with assms(1) show ?thesis by (simp add: tick_idle)
next
  case (Some d)
  with assms show ?thesis by (simp add: binsOk_def tick_prev)
qed

lemma ticks_binsOk: "binsOk n a \<Longrightarrow> callsOk n calls \<Longrightarrow> binsOk n (snd (ticks sr calls a))"
proof (induction calls arbitrary: a)
  case Nil
  then show ?case by simp
next
  case (Cons c calls)
  obtain t running where c: "c = (t, running)" by (cases c)
  from Cons.prems(2) c have r: "case running of None \<Rightarrow> True | Some d \<Rightarrow> length d = n"
    and rest: "callsOk n calls"
    by (simp_all add: callsOk_def)
  from Cons.IH[OF tick_binsOk[OF Cons.prems(1) r, of t sr] rest] show ?case
    unfolding c ticks_Cons by simp
qed

text \<open>
  Claim C1, amended. On all-zero frequency data every smoothed scalar of the frame is
  its previous value times its retention, so it falls monotonically toward 0: the five
  bands, the centroid, the flux, the noisiness and also the rolloff, whose raw value on
  silence is 0 and not 0.3. From a state whose smoothed scalars lie in [0, 1] the
  scalars stay in [0, 1], after \<open>j + 1\<close> frames none exceeds \<open>0.9 ^ (j + 1)\<close>, and for
  every tolerance there is a number of frames, the same for all such states, after
  which all of them are below it. Every state that ticks on any data of \<open>n\<close> bins reach
  from a newly constructed analyzer is such a state.
\<close>

theorem silence_decay:
  "(binsOk n a \<and> smoothInRange a \<and> j < length ts \<and> i < 9 \<longrightarrow>
      smoothedOf (fst (ticks sr (silentCalls n ts) a) ! j) = decayed (Suc j) (smoothedState a)
      \<and> 0 \<le> smoothedOf (fst (ticks sr (silentCalls n ts) a) ! j) ! i
      \<and> smoothedOf (fst (ticks sr (silentCalls n ts) a) ! j) ! i \<le> 1
      \<and> smoothedOf (fst (ticks sr (silentCalls n ts) a) ! j) ! i \<le> decayed j (smoothedState a) ! i
      \<and> smoothedOf (fst (ticks sr (silentCalls n ts) a) ! j) ! i \<le> 0.9 ^ Suc j
      \<and> decayed 0 (smoothedState a) = smoothedState a)
   \<and> (0 < e \<longrightarrow>
        (\<exists>N. \<forall>n a ts j i. binsOk n a \<and> smoothInRange a \<and> N \<le> j \<and> j < length ts \<and> i < 9 \<longrightarrow>
           smoothedOf (fst (ticks sr (silentCalls n ts) a) ! j) ! i < e))
   \<and> (0 < n \<and> callsOk n calls \<longrightarrow>
        smoothInRange (snd (ticks sr calls (initialAnalyzer m)))
        \<and> binsOk n (snd (ticks sr calls (initialAnalyzer m))))"
proof (intro conjI impI)
  assume "0 < n \<and> callsOk n calls"
  then show "binsOk n (snd (ticks sr calls (initialAnalyzer m)))"
    by (intro ticks_binsOk initial_binsOk) simp_all
  show "smoothInRange (snd (ticks sr calls (initialAnalyzer m)))"
    by (rule ticks_inRange) (simp add: smoothInRange_def initialAnalyzer_def)
next
  assume h: "binsOk n a \<and> smoothInRange a \<and> j < length ts \<and> i < 9"
  then have n: "0 < n" and j: "j < length ts" and i: "i < 9"
    and r: "\<forall>x \<in> set (smoothedState a). 0 \<le> x \<and> x \<le> 1"
    by (simp_all add: smoothInRange_iff binsOk_def)
  note f = silent_frames[OF n j, of sr a]
  note b = decayed_bounds[OF length_smoothedState r i]
  show "smoothedOf (fst (ticks sr (silentCalls n ts) a) ! j) = decayed (Suc j) (smoothedState a)"
    by (rule f)
  show "0 \<le> smoothedOf (fst (ticks sr (silentCalls n ts) a) ! j) ! i"
    unfolding f by (rule b(1))
  show "smoothedOf (fst (ticks sr (silentCalls n ts) a) ! j) ! i \<le> decayed j (smoothedState a) ! i"
    unfolding f by (rule b(3))
  show le9: "smoothedOf (fst (ticks sr (silentCalls n ts) a) ! j) ! i \<le> 0.9 ^ Suc j"
    unfolding f by (rule b(2))
  have "(0.9::real) ^ Suc j \<le> 1" by (intro power_le_one) simp_all
  with le9 show "smoothedOf (fst (ticks sr (silentCalls n ts) a) ! j) ! i \<le> 1" by linarith
  show "decayed 0 (smoothedState a) = smoothedState a"
    by (simp add: decayed_def smoothedState_def retentions_def)
next
  assume "0 < e"
  from tolerance[OF this] obtain N where N: "\<forall>k\<ge>N. (0.9::real) ^ k < e" by blast
  have "smoothedOf (fst (ticks sr (silentCalls n ts) a) ! j) ! i < e"
    if "binsOk n a \<and> smoothInRange a \<and> N \<le> j \<and> j < length ts \<and> i < 9" for n a ts j i
  proof -
    from that have n: "0 < n" and j: "j < length ts" and i: "i < 9" and Nj: "N \<le> j"
      and r: "\<forall>x \<in> set (smoothedState a). 0 \<le> x \<and> x \<le> 1"
      by (simp_all add: smoothInRange_iff binsOk_def)
    have "smoothedOf (fst (ticks sr (silentCalls n ts) a) ! j) ! i \<le> 0.9 ^ Suc j"
      unfolding silent_frames[OF n j] by (rule decayed_bounds(2)[OF length_smoothedState r i])
    moreover have "N \<le> Suc j" using Nj by simp
    with N have "(0.9::real) ^ Suc j < e" by blast
    ultimately show ?thesis by linarith
  qed
  then show "\<exists>N. \<forall>n a ts j i. binsOk n a \<and> smoothInRange a \<and> N \<le> j \<and> j < length ts \<and> i < 9 \<longrightarrow>
           smoothedOf (fst (ticks sr (silentCalls n ts) a) ! j) ! i < e"
    by blast
qed

lemma initial_inRange: "smoothInRange (initialAnalyzer m)"
  by (simp add: smoothInRange_def initialAnalyzer_def)

theorem silence_decay_witness:
  "binsOk 1024 (initialAnalyzer Live) \<and> smoothInRange (initialAnalyzer Live)
   \<and> (1::nat) < length [0, 1 / 60 :: real] \<and> (7::nat) < 9
   \<and> smoothedOf (fst (ticks 44100 (silentCalls 1024 [0, 1 / 60]) (initialAnalyzer Live)) ! 1)
       = [0, 0, 0, 0, 0, 0.3872, 0, 0.243, 0]
   \<and> (\<exists>N. \<forall>n a ts j i. binsOk n a \<and> smoothInRange a \<and> N \<le> j \<and> j < length ts \<and> i < 9 \<longrightarrow>
           smoothedOf (fst (ticks 44100 (silentCalls n ts) a) ! j) ! i < 1 / 1000)
   \<and> callsOk 1024 (silentCalls 1024 [0, 1 / 60])
   \<and> smoothInRange (snd (ticks 44100 (silentCalls 1024 [0, 1 / 60]) (initialAnalyzer Live)))
   \<and> binsOk 1024 (snd (ticks 44100 (silentCalls 1024 [0, 1 / 60]) (initialAnalyzer Live)))"
proof -
  have d: "decayed (Suc 1) (smoothedState (initialAnalyzer Live)) = [0, 0, 0, 0, 0, 0.3872, 0, 0.243, 0]"
    by (simp add: decayed_def smoothedState_def retentions_def initialAnalyzer_def power2_eq_square)
  have b: "binsOk 1024 (initialAnalyzer Live)"
    by (simp add: binsOk_def initialAnalyzer_def)
  have c: "callsOk 1024 (silentCalls 1024 [0, 1 / 60])"
    by (simp add: callsOk_def silentCalls_def silence_def)
  have h: "binsOk 1024 (initialAnalyzer Live) \<and> smoothInRange (initialAnalyzer Live)
      \<and> (1::nat) < length [0, 1 / 60 :: real] \<and> (7::nat) < 9"
    by (simp add: initial_inRange b)
  have e: "(0::real) < 1 / 1000" by simp
  have nc: "0 < (1024::nat) \<and> callsOk 1024 (silentCalls 1024 [0, 1 / 60])"
    using c by simp
  note inst = silence_decay[where n = 1024 and a = "initialAnalyzer Live" and j = 1
      and ts = "[0, 1 / 60]" and i = 7 and sr = 44100 and e = "1 / 1000"
      and calls = "silentCalls 1024 [0, 1 / 60]" and m = Live]
  from inst h have one: "smoothedOf (fst (ticks 44100 (silentCalls 1024 [0, 1 / 60]) (initialAnalyzer Live)) ! 1)
       = decayed (Suc 1) (smoothedState (initialAnalyzer Live))"
    by blast
  from inst e have two: "\<exists>N. \<forall>n a ts j i. binsOk n a \<and> smoothInRange a \<and> N \<le> j \<and> j < length ts \<and> i < 9 \<longrightarrow>
           smoothedOf (fst (ticks 44100 (silentCalls n ts) a) ! j) ! i < 1 / 1000"
    by blast
  from inst nc have three: "smoothInRange (snd (ticks 44100 (silentCalls 1024 [0, 1 / 60]) (initialAnalyzer Live)))
      \<and> binsOk 1024 (snd (ticks 44100 (silentCalls 1024 [0, 1 / 60]) (initialAnalyzer Live)))"
    by blast
  from h one[unfolded d] two c three show ?thesis by blast
qed

text \<open>
  Claim C1 as stated fails for the rolloff: from the initial state, where it is at the
  documented 0.3, two silent frames take it to 0.27 and then 0.243, away from 0.3.
\<close>

theorem silence_rolloff_counterexample:
  "smRolloff (initialAnalyzer Live) = 0.3
   \<and> rolloff (fst (ticks 44100 (silentCalls 1024 [0, 1 / 60]) (initialAnalyzer Live)) ! 0) = 0.27
   \<and> rolloff (fst (ticks 44100 (silentCalls 1024 [0, 1 / 60]) (initialAnalyzer Live)) ! 1) = 0.243"
proof -
  have n: "(0::nat) < 1024" by simp
  have r: "rolloff (fst (tick t sr (Some (silence 1024)) a)) = smRolloff a * 0.9"
    "smRolloff (snd (tick t sr (Some (silence 1024)) a)) = smRolloff a * 0.9" for t sr a
    by (simp_all add: tick_silence[OF n])
  show ?thesis
    unfolding silentCalls_def list.map ticks_Cons fst_conv snd_conv
    by (simp add: r initialAnalyzer_def)
qed






section \<open>The classifier on the frames of the analyzer\<close>









section \<open>Properties of the palette modulation\<close>














end
